theory Spec2Isabelle
  imports Main "HOL-Library.Sublist" "HOL-Library.Multiset"
begin

section \<open>ClipBook: the chat assistant core\<close>

text \<open>
  A shallow embedding of the parts of the ClipBook sources that its specification talks about:
  the in-memory rate limiter, the rule-based responder of \<^verbatim>\<open>functions/hfChat.js\<close>, the
  playlist and profile context builders, the tag finalisation of the search components, the
  browser-side responder of \<^verbatim>\<open>ChatAI_free.jsx\<close> and \<^verbatim>\<open>getEmbedInfo\<close> of the dashboard.

  Conventions of the embedding.
  \<^item> A JavaScript string is a \<open>string\<close>, one character per UTF-16 code unit, so that
    \<open>length\<close> is \<^verbatim>\<open>.length\<close>. The two non-ASCII characters of the sources' literals, the
    ellipsis U+2026 and the em dash U+2014, are the single characters \<open>ellipsis\<close> and
    \<open>emdash\<close> below.
  \<^item> Lower-casing and the white space of \<^verbatim>\<open>trim\<close> and \<^verbatim>\<open>\s\<close> are those of the platform and are
    parameters of the functions that use them (the record \<open>platform\<close> below); no
    property of them is built in.
  \<^item> A millisecond timestamp (\<^verbatim>\<open>Date.now()\<close>) is an \<open>int\<close>; a counter or a length is a
    \<open>nat\<close>.
  \<^item> The rate limiter's \<^verbatim>\<open>buckets\<close> is a map over its own properties: its keys are user ids
    of the authentication service or \<^verbatim>\<open>anonymous\<close>. The counting objects, whose keys are
    tags, site names and words of titles, are modelled with what they inherit from
    \<^verbatim>\<open>Object.prototype\<close> (\<open>count_key\<close>).
  \<^item> \<^verbatim>\<open>Array.prototype.sort\<close> is stable (ECMAScript 2019); with a comparator that orders by a
    key it is \<open>sort_key\<close>.
  \<^item> A read of the document store is a value of a sum type: \<open>Inl\<close> is the rejected
    promise that the source's \<^verbatim>\<open>try\<close>/\<^verbatim>\<open>catch\<close> handles.
\<close>

subsection \<open>Rate limiter\<close>

text \<open>
  \<^verbatim>\<open>withinLimit(uid)\<close> of \<^verbatim>\<open>functions/hfChat.js\<close> (cap 20) and of \<^verbatim>\<open>functions/src/hfChat.ts\<close>
  (cap 15). The two bodies are the same text; the cap is a parameter here. The module
  variable \<^verbatim>\<open>buckets\<close> and the clock are passed explicitly; the updated \<^verbatim>\<open>buckets\<close> is
  returned with the answer.
\<close>

type_synonym buckets = "string \<rightharpoonup> int list"

definition WINDOW_MS :: int where
  "WINDOW_MS = 60000"

definition MAX_REQ_rule :: nat where
  "MAX_REQ_rule = 20"

definition MAX_REQ_hf :: nat where
  "MAX_REQ_hf = 15"

definition bucket_of :: "buckets \<Rightarrow> string \<Rightarrow> int list" where
  \<comment> \<open>\<^verbatim>\<open>buckets[uid] || []\<close>\<close>
  "bucket_of b uid = (case b uid of None \<Rightarrow> [] | Some arr \<Rightarrow> arr)"

definition withinLimit :: "nat \<Rightarrow> int \<Rightarrow> buckets \<Rightarrow> string \<Rightarrow> bool \<times> buckets" where
  "withinLimit MAX_REQ now b uid =
     (let arr = bucket_of b uid;
          recent = filter (\<lambda>t. now - t < WINDOW_MS) arr
      in if length recent \<ge> MAX_REQ then (False, b(uid \<mapsto> recent))
         else (True, b(uid \<mapsto> recent @ [now])))"

text \<open>A sequence of calls \<open>(uid, now)\<close>, in the order in which they are served.\<close>

fun run_calls :: "nat \<Rightarrow> buckets \<Rightarrow> (string \<times> int) list \<Rightarrow> buckets" where
  "run_calls N b [] = b"
| "run_calls N b ((uid, now) # cs) = run_calls N (snd (withinLimit N now b uid)) cs"

text \<open>Successive calls of one user at the given times: the answers and the final state.\<close>

fun calls_of :: "nat \<Rightarrow> buckets \<Rightarrow> string \<Rightarrow> int list \<Rightarrow> bool list \<times> buckets" where
  "calls_of N b uid [] = ([], b)"
| "calls_of N b uid (now # ts) =
     (let (ok, b') = withinLimit N now b uid;
          (oks, b'') = calls_of N b' uid ts
      in (ok # oks, b''))"

subsection \<open>JavaScript strings and arrays\<close>

definition ellipsis :: char where
  \<comment> \<open>U+2026, one code unit\<close>
  "ellipsis = CHR 0x85"

definition emdash :: char where
  \<comment> \<open>U+2014, one code unit\<close>
  "emdash = CHR 0x97"

text \<open>
  The value of a property of an object used as a counter (\<^verbatim>\<open>o[k] = (o[k] || 0) + 1\<close>): a
  number, or a string when the key names a member of \<^verbatim>\<open>Object.prototype\<close> (see \<open>count_key\<close>).
\<close>

datatype jsval = Num nat | Str string

text \<open>
  What the sources take from the JavaScript platform and do not define themselves:
  \<^item> \<open>toLowerCase\<close>: \<^verbatim>\<open>String.prototype.toLowerCase\<close>, the Unicode lower-casing of a string;
  \<^item> \<open>is_space\<close>: the code units that are white space or line terminators, which is what
    \<^verbatim>\<open>trim()\<close> removes and what \<^verbatim>\<open>\s\<close> matches;
  \<^item> \<open>native_text\<close>: the text of the function that \<^verbatim>\<open>Object.prototype\<close> holds under a key
    (\<^verbatim>\<open>String(Object.prototype[k])\<close>), which an implementation chooses;
  \<^item> \<open>sort_inconsistent\<close>: the result of \<^verbatim>\<open>Array.prototype.sort\<close> when the comparator is not
    a consistent one, which an implementation chooses.
  Every function below that uses one of them takes the platform as its first argument.
\<close>

record platform =
  toLowerCase :: "string \<Rightarrow> string"
  is_space :: "char \<Rightarrow> bool"
  native_text :: "string \<Rightarrow> string"
  sort_inconsistent :: "(string \<times> jsval) list \<Rightarrow> (string \<times> jsval) list"

definition trim :: "platform \<Rightarrow> string \<Rightarrow> string" where
  \<comment> \<open>\<^verbatim>\<open>s.trim()\<close>\<close>
  "trim js s = rev (dropWhile (is_space js) (rev (dropWhile (is_space js) s)))"

text \<open>
  The platform on ASCII text: lower-casing changes the letters \<^verbatim>\<open>A\<close> to \<^verbatim>\<open>Z\<close> only and the
  white space is tab, LF, VT, FF, CR and space. JavaScript agrees with it on every string
  of ASCII characters; it is used to evaluate the functions on such strings, where the
  two implementation choices are not reached. \<open>lower_char\<close> is also the case folding of
  a regular expression with the \<^verbatim>\<open>i\<close> flag on an ASCII pattern.
\<close>

definition lower_char :: "char \<Rightarrow> char" where
  "lower_char c =
     (let n = (of_char c :: int) in if 65 \<le> n \<and> n \<le> 90 then char_of (n + 32) else c)"

definition ascii_space :: "char \<Rightarrow> bool" where
  "ascii_space c = (let n = (of_char c :: int) in (9 \<le> n \<and> n \<le> 13) \<or> n = 32)"

definition ascii_platform :: platform where
  "ascii_platform =
     \<lparr>toLowerCase = map lower_char, is_space = ascii_space,
      native_text = (\<lambda>k. ''function () { [native code] }''),
      sort_inconsistent = (\<lambda>es. es)\<rparr>"

definition is_word_char :: "char \<Rightarrow> bool" where
  \<comment> \<open>\<^verbatim>\<open>\w\<close>: the ASCII letters, digits and the underscore\<close>
  "is_word_char c =
     (let n = (of_char c :: int)
      in (48 \<le> n \<and> n \<le> 57) \<or> (65 \<le> n \<and> n \<le> 90) \<or> (97 \<le> n \<and> n \<le> 122) \<or> n = 95)"

definition is_digit :: "char \<Rightarrow> bool" where
  "is_digit c = (let n = (of_char c :: int) in 48 \<le> n \<and> n \<le> 57)"

definition str_includes :: "string \<Rightarrow> string \<Rightarrow> bool" where
  \<comment> \<open>\<^verbatim>\<open>t.includes(w)\<close>, \<^verbatim>\<open>t.indexOf(w) !== -1\<close>\<close>
  "str_includes t w = sublist w t"

text \<open>
  \<^verbatim>\<open>s.split(re)\<close> for a regular expression \<^verbatim>\<open>re\<close> that matches the non-empty runs of the
  characters satisfying \<open>sep\<close> (\<^verbatim>\<open>/\s+/\<close>, \<^verbatim>\<open>/\W+/\<close>): the pieces between the runs, empty
  pieces at the two ends included.
\<close>

function split_runs :: "(char \<Rightarrow> bool) \<Rightarrow> string \<Rightarrow> string list" where
  "split_runs sep [] = [[]]"
| "split_runs sep (c # cs) =
     (if sep c then [] # split_runs sep (dropWhile sep cs)
      else (case split_runs sep cs of
              [] \<Rightarrow> [[c]]
            | w # ws \<Rightarrow> (c # w) # ws))"
  by pat_completeness auto
termination
  by (relation "measure (\<lambda>(sep, s). length s)") (auto simp: length_dropWhile_le less_Suc_eq_le)

text \<open>\<^verbatim>\<open>s.split(ch)\<close> for a one-character separator.\<close>

fun split_char :: "char \<Rightarrow> string \<Rightarrow> string list" where
  "split_char sep [] = [[]]"
| "split_char sep (c # cs) =
     (if c = sep then [] # split_char sep cs
      else (case split_char sep cs of
              [] \<Rightarrow> [[c]]
            | w # ws \<Rightarrow> (c # w) # ws))"

fun join :: "string \<Rightarrow> string list \<Rightarrow> string" where
  "join sep [] = []"
| "join sep [x] = x"
| "join sep (x # y # zs) = x @ sep @ join sep (y # zs)"

definition digit_char :: "nat \<Rightarrow> char" where
  "digit_char d = char_of (48 + int d)"

fun show_nat :: "nat \<Rightarrow> string" where
  "show_nat n = (if n < 10 then [digit_char n] else show_nat (n div 10) @ [digit_char (n mod 10)])"

declare show_nat.simps [simp del]

definition show_val :: "jsval \<Rightarrow> string" where
  \<comment> \<open>a counter value inside a template literal\<close>
  "show_val v = (case v of Num n \<Rightarrow> show_nat n | Str s \<Rightarrow> s)"

definition nth_opt :: "'a list \<Rightarrow> nat \<Rightarrow> 'a option" where
  \<comment> \<open>\<^verbatim>\<open>xs[i]\<close>, \<^verbatim>\<open>undefined\<close> out of range\<close>
  "nth_opt xs i = (if i < length xs then Some (xs ! i) else None)"

definition pop_opt :: "'a list \<Rightarrow> 'a option" where
  \<comment> \<open>\<^verbatim>\<open>xs.pop()\<close>, \<^verbatim>\<open>undefined\<close> on the empty array\<close>
  "pop_opt xs = (if xs = [] then None else Some (last xs))"

text \<open>\<^verbatim>\<open>xs.map((x, i) => f(x, i))\<close>: the callback gets the index too.\<close>

definition map_index :: "('a \<Rightarrow> nat \<Rightarrow> 'b) \<Rightarrow> 'a list \<Rightarrow> 'b list" where
  "map_index f xs = map (\<lambda>(x, i). f x i) (zip xs [0..<length xs])"

text \<open>
  A field of a document that holds a string: \<open>None\<close> when the field is absent
  (\<^verbatim>\<open>undefined\<close>). The operator \<^verbatim>\<open>||\<close> skips an absent field and the empty string.
\<close>

definition truthy :: "string option \<Rightarrow> bool" where
  "truthy v = (case v of None \<Rightarrow> False | Some s \<Rightarrow> s \<noteq> [])"

definition or_field :: "string option \<Rightarrow> string option \<Rightarrow> string option" where
  \<comment> \<open>\<^verbatim>\<open>a || b\<close> on two fields\<close>
  "or_field a b = (if truthy a then a else b)"

definition or_str :: "string option \<Rightarrow> string \<Rightarrow> string" where
  \<comment> \<open>\<^verbatim>\<open>a || "lit"\<close>\<close>
  "or_str a d = (case a of None \<Rightarrow> d | Some s \<Rightarrow> if s = [] then d else s)"

definition template :: "string option \<Rightarrow> string" where
  \<comment> \<open>a field inside a template literal\<close>
  "template v = (case v of None \<Rightarrow> ''undefined'' | Some s \<Rightarrow> s)"

text \<open>
  \<^verbatim>\<open>Object.entries(o)\<close> of an object filled key by key: the keys that are array indices
  (canonical decimal numerals below \<open>2^32 - 1\<close>) come first, in ascending numeric order, the
  other keys follow in the order of their first insertion. The object is the association
  list of its own properties in insertion order.
\<close>

definition digits_value :: "string \<Rightarrow> int" where
  "digits_value s = foldl (\<lambda>acc c. 10 * acc + (of_char c - 48)) 0 s"

definition is_array_index :: "string \<Rightarrow> bool" where
  "is_array_index k \<longleftrightarrow>
     k \<noteq> [] \<and> list_all is_digit k \<and> (k = ''0'' \<or> hd k \<noteq> CHR ''0'') \<and>
     length k \<le> 10 \<and> digits_value k < 4294967295"

definition object_entries :: "(string \<times> 'v) list \<Rightarrow> (string \<times> 'v) list" where
  "object_entries obj =
     sort_key (\<lambda>(k, v). digits_value k) (filter (\<lambda>(k, v). is_array_index k) obj) @
     filter (\<lambda>(k, v). \<not> is_array_index k) obj"

text \<open>
  \<^verbatim>\<open>o[k] = (o[k] || 0) + 1\<close> on an object created as \<^verbatim>\<open>{}\<close>. The read \<^verbatim>\<open>o[k]\<close> finds an own
  property, or else what \<^verbatim>\<open>Object.prototype\<close> holds under \<open>k\<close>:
  \<^item> an own number \<open>n\<close> becomes \<open>n + 1\<close>; an own string (never empty here) gets the
    character \<^verbatim>\<open>1\<close> appended, since \<^verbatim>\<open>+\<close> concatenates;
  \<^item> a key that names a function of \<^verbatim>\<open>Object.prototype\<close> reads that function, which is
    truthy, and the property is created with the function's text followed by \<^verbatim>\<open>1\<close>;
  \<^item> the key \<^verbatim>\<open>__proto__\<close> reads the prototype object and the assignment of a string to
    it is ignored: no property is created;
  \<^item> any other new key is created with the number 1.
\<close>

definition proto_functions :: "string list" where
  "proto_functions =
     [''constructor'', ''hasOwnProperty'', ''isPrototypeOf'', ''propertyIsEnumerable'',
      ''toLocaleString'', ''toString'', ''valueOf'', ''__defineGetter__'', ''__defineSetter__'',
      ''__lookupGetter__'', ''__lookupSetter__'']"

definition bump :: "jsval \<Rightarrow> jsval" where
  \<comment> \<open>\<^verbatim>\<open>(v || 0) + 1\<close> for the value \<open>v\<close> of an own property\<close>
  "bump v = (case v of
               Num n \<Rightarrow> Num (n + 1)
             | Str s \<Rightarrow> if s = [] then Num 1 else Str (s @ ''1''))"

definition count_key :: "platform \<Rightarrow> (string \<times> jsval) list \<Rightarrow> string \<Rightarrow> (string \<times> jsval) list" where
  "count_key js obj k =
     (case map_of obj k of
        Some v \<Rightarrow> map (\<lambda>(k', v'). if k' = k then (k', bump v') else (k', v')) obj
      | None \<Rightarrow>
          if k = ''__proto__'' then obj
          else if k \<in> set proto_functions then obj @ [(k, Str (native_text js k @ ''1''))]
          else obj @ [(k, Num 1)])"

definition count_keys :: "platform \<Rightarrow> string list \<Rightarrow> (string \<times> jsval) list" where
  \<comment> \<open>\<^verbatim>\<open>for (const k of ks) o[k] = (o[k] || 0) + 1\<close>, from \<^verbatim>\<open>{}\<close>\<close>
  "count_keys js ks = foldl (count_key js) [] ks"

text \<open>
  \<^verbatim>\<open>entries.sort((a, b) => b[1] - a[1])\<close>. On numbers the comparator orders by descending
  count and the sort, being stable, is \<open>sort_key\<close>. The difference with a string of
  \<open>count_key\<close> is \<^verbatim>\<open>NaN\<close>, which the sort reads as equality; the comparator is then
  consistent only when all the numbers are equal, and every entry compares equal to every
  other, so that the stable sort changes nothing. Otherwise the order is the
  implementation's.
\<close>

definition is_num :: "jsval \<Rightarrow> bool" where
  "is_num v = (case v of Num n \<Rightarrow> True | Str s \<Rightarrow> False)"

definition num_of :: "jsval \<Rightarrow> nat" where
  "num_of v = (case v of Num n \<Rightarrow> n | Str s \<Rightarrow> 0)"

definition sort_by_count_desc :: "platform \<Rightarrow> (string \<times> jsval) list \<Rightarrow> (string \<times> jsval) list" where
  "sort_by_count_desc js es =
     (if list_all (\<lambda>(k, v). is_num v) es then sort_key (\<lambda>(k, v). - int (num_of v)) es
      else if length (remdups (map (\<lambda>(k, v). num_of v) (filter (\<lambda>(k, v). is_num v) es))) \<le> 1
      then es
      else sort_inconsistent js es)"

subsection \<open>Documents of the store\<close>

text \<open>
  A clip document as the components read it (\<^verbatim>\<open>{ id: d.id, ...d.data() }\<close>). String fields
  are absent or strings; \<^verbatim>\<open>tags\<close> and \<^verbatim>\<open>playlistIds\<close> are arrays of strings (empty when
  absent); \<^verbatim>\<open>createdAt\<close> is a millisecond timestamp; \<^verbatim>\<open>duration\<close> is absent, a number (a whole
  number of seconds), or a value of another type.
\<close>

datatype duration = NoDuration | Duration int | OtherDuration

record clip =
  clip_id :: "string option"
  customTitle :: "string option"
  title :: "string option"
  description :: "string option"
  originalUrl :: "string option"
  watchUrl :: "string option"
  videoSite :: "string option"
  tags :: "string list"
  playlistIds :: "string list"
  createdAt :: "int option"
  watched :: bool
  duration :: duration

definition no_clip :: clip where
  \<comment> \<open>the document with no field set\<close>
  "no_clip = \<lparr> clip_id = None, customTitle = None, title = None, description = None,
      originalUrl = None, watchUrl = None, videoSite = None, tags = [], playlistIds = [],
      createdAt = None, watched = False, duration = NoDuration \<rparr>"

record playlist =
  playlist_id :: "string option"
  name :: "string option"

datatype read_error = ReadFailed string

text \<open>
  The two reads the server-side functions make: the playlist document
  \<^verbatim>\<open>users/{uid}/playlists/{playlistId}\<close> (\<open>None\<close> when it does not exist) and the query
  for the clips of a playlist, newest first, with a limit.
\<close>

record store =
  get_playlist :: "string \<Rightarrow> string \<Rightarrow> read_error + playlist option"
  query_clips :: "string \<Rightarrow> string \<Rightarrow> nat \<Rightarrow> read_error + clip list"

subsection \<open>The rule-based responder (\<^verbatim>\<open>functions/hfChat.js\<close>)\<close>

definition normalize :: "platform \<Rightarrow> string option \<Rightarrow> string" where
  \<comment> \<open>\<^verbatim>\<open>(s || "").toString().toLowerCase()\<close>\<close>
  "normalize js s = toLowerCase js (or_str s '''')"

definition scoreText :: "platform \<Rightarrow> string \<Rightarrow> string \<Rightarrow> nat" where
  "scoreText js query text =
     (if query = [] \<or> text = [] then 0
      else let q = filter (\<lambda>w. w \<noteq> []) (split_runs (is_space js) (normalize js (Some query)));
               t = normalize js (Some text)
           in length (filter (\<lambda>w. str_includes t w) q))"

definition shortText :: "platform \<Rightarrow> string option \<Rightarrow> nat \<Rightarrow> string" where
  "shortText js s n =
     (case s of None \<Rightarrow> ''''
      | Some s \<Rightarrow> if s = [] then '''' else if length s \<le> n then s else trim js (take n s) @ ''...'')"

definition fetchPlaylistClips :: "store \<Rightarrow> string \<Rightarrow> string option \<Rightarrow> nat \<Rightarrow> clip list" where
  "fetchPlaylistClips db uid playlistId limit =
     (if uid = [] \<or> \<not> truthy playlistId then []
      else case query_clips db uid (the playlistId) limit of
             Inr docs \<Rightarrow> docs
           | Inl e \<Rightarrow> [])"

datatype intent = Summarize | Recommend | Quiz | Plan | Search

definition detectIntent :: "platform \<Rightarrow> string \<Rightarrow> intent" where
  "detectIntent js message =
     (let m = normalize js (Some message)
      in if str_includes m ''summar'' \<or> str_includes m ''overview'' \<or> str_includes m ''summary''
         then Summarize
         else if str_includes m ''recommend'' \<or> str_includes m ''next'' \<or>
                 str_includes m ''what next'' \<or> str_includes m ''suggest''
         then Recommend
         else if str_includes m ''quiz'' \<or> str_includes m ''question'' \<or> str_includes m ''test me''
         then Quiz
         else if str_includes m ''plan'' \<or> str_includes m ''study plan''
         then Plan
         else if str_includes m ''find'' \<or> str_includes m ''search'' \<or> str_includes m ''which'' \<or>
                 str_includes m ''where'' \<or> str_includes m ''?''
         then Search
         else Search)"

definition clip_title :: "clip \<Rightarrow> string option" where
  \<comment> \<open>\<^verbatim>\<open>c.customTitle || c.title\<close>\<close>
  "clip_title c = or_field (customTitle c) (title c)"

definition summarizeClips :: "platform \<Rightarrow> clip list \<Rightarrow> string" where
  "summarizeClips js clips =
     (if clips = [] then ''No clips found in this playlist.''
      else
        let top = take 5 clips;
            bullets = map_index (\<lambda>c i.
               show_nat (i + 1) @ ''. '' @
               (if truthy (clip_title c) then the (clip_title c)
                else shortText js (Some (or_str (originalUrl c) ''Untitled'')) 40) @
               '' '' @ [emdash] @ '' '' @ shortText js (Some (or_str (description c) '''')) 120) top;
            titles = join '' '' (map (\<lambda>c. or_str (clip_title c) '''') top);
            words = filter (\<lambda>w. length w > 3)
                      (split_runs (\<lambda>ch. \<not> is_word_char ch) (toLowerCase js titles));
            freq = count_keys js words;
            topWords = map fst (take 3 (sort_by_count_desc js (object_entries freq)))
        in ''This playlist covers: '' @
           (if topWords \<noteq> [] then join '', '' topWords else ''various topics'') @
           ''. Key videos:'' @ [CHR 0x0A] @ join [CHR 0x0A] bullets)"

definition recommendClip :: "platform \<Rightarrow> clip list \<Rightarrow> string option list \<Rightarrow> clip option" where
  "recommendClip js clips previousTitles =
     (if clips = [] then None
      else
        let lowerPrev = map (normalize js) previousTitles
        in case find (\<lambda>c. normalize js (Some (or_str (clip_title c) '''')) \<notin> set lowerPrev) clips of
             Some c \<Rightarrow> Some c
           | None \<Rightarrow> Some (hd clips))"

definition generateQuiz :: "platform \<Rightarrow> clip list \<Rightarrow> nat \<Rightarrow> string list" where
  "generateQuiz js clips num =
     (if clips = [] then [''No clips available for quiz.'']
      else
        let top = take (min num (length clips)) clips
        in map (\<lambda>c. ''What is the main topic of \"'' @
                    shortText js (Some (or_str (clip_title c) ''Untitled'')) 60 @ ''\"?'') top)"

definition searchClips :: "platform \<Rightarrow> clip list \<Rightarrow> string \<Rightarrow> nat \<Rightarrow> clip list" where
  "searchClips js clips query limit =
     (let scored = filter (\<lambda>(c, score). score > 0)
                     (map (\<lambda>c. (c, scoreText js query
                              (or_str (clip_title c) '''' @ '' '' @ or_str (description c) ''''))) clips);
          sorted = take limit (sort_key (\<lambda>(c, score). - int score) scored)
      in map fst sorted)"

datatype response = Reply string | Error string

definition numbered_titles :: "clip list \<Rightarrow> string" where
  \<comment> \<open>\<^verbatim>\<open>xs.map((c,i) => `${i+1}. ${c.customTitle||c.title||"Untitled"}`).join(", ")\<close>\<close>
  "numbered_titles xs =
     join '', '' (map_index (\<lambda>c i. show_nat (i + 1) @ ''. '' @ or_str (clip_title c) ''Untitled'') xs)"

definition slice :: "nat \<Rightarrow> nat \<Rightarrow> 'a list \<Rightarrow> 'a list" where
  \<comment> \<open>\<^verbatim>\<open>xs.slice(i, j)\<close> for \<open>0 \<le> i \<le> j\<close>\<close>
  "slice i j xs = take (j - i) (drop i xs)"

definition or_lit :: "string \<Rightarrow> string \<Rightarrow> string" where
  \<comment> \<open>\<^verbatim>\<open>s || "lit"\<close> on a string\<close>
  "or_lit s d = (if s = [] then d else s)"

text \<open>The body of the callable after the clips are loaded: the \<^verbatim>\<open>try\<close> block.\<close>

definition respond :: "platform \<Rightarrow> clip list \<Rightarrow> string \<Rightarrow> response" where
  "respond js clips message =
     (case detectIntent js message of
        Summarize \<Rightarrow> Reply (summarizeClips js clips)
      | Recommend \<Rightarrow>
          (case recommendClip js clips [] of
             None \<Rightarrow> Reply ''No clips found to recommend.''
           | Some rec \<Rightarrow>
               Reply (''Recommended: '' @
                      template (or_field (or_field (customTitle rec) (title rec)) (originalUrl rec)) @
                      [CHR 0x0A, CHR 0x0A] @
                      shortText js (Some (or_str (description rec) ''No description'')) 300 @
                      [CHR 0x0A, CHR 0x0A] @ ''Link: '' @ or_str (originalUrl rec) ''N/A''))
      | Quiz \<Rightarrow>
          Reply (''Quiz:'' @ [CHR 0x0A] @
                 join [CHR 0x0A] (map_index (\<lambda>x i. show_nat (i + 1) @ ''. '' @ x)
                                     (generateQuiz js clips 5)))
      | Plan \<Rightarrow>
          (let items = take 6 clips
           in Reply (join [CHR 0x0A]
                [''Study plan for this playlist ('' @ show_nat (length items) @ '' clips):'',
                 ''Day 1: Watch '' @ numbered_titles (slice 0 2 items),
                 ''Day 2: Watch '' @ or_lit (numbered_titles (slice 2 4 items)) ''No clips'',
                 ''Day 3: Watch '' @ or_lit (numbered_titles (slice 4 6 items)) ''No clips'',
                 ''Tip: Take notes and try a short recap after each video.'']))
      | Search \<Rightarrow>
          (let matches = (if clips \<noteq> [] then searchClips js clips message 5 else [])
           in if matches \<noteq> []
              then Reply (''Found '' @ show_nat (length matches) @ '' relevant clips:'' @
                          [CHR 0x0A, CHR 0x0A] @
                          join [CHR 0x0A, CHR 0x0A]
                            (map_index (\<lambda>c i.
                               show_nat (i + 1) @ ''. '' @ or_str (clip_title c) ''Untitled'' @
                               '' '' @ [emdash] @ '' '' @
                               shortText js (Some (or_str (description c) '''')) 160 @
                               [CHR 0x0A] @ ''Link: '' @ or_str (originalUrl c) ''N/A'') matches))
              else Reply (''I couldn't find direct matches. Try asking:'' @ [CHR 0x0A] @
                          ''- \"summarize playlist\"'' @ [CHR 0x0A] @
                          ''- \"recommend next\"'' @ [CHR 0x0A] @
                          ''- \"quiz me\"'' @ [CHR 0x0A] @
                          ''Or include keywords from the video title or description.'')))"

text \<open>
  The callable \<^verbatim>\<open>exports.hfChat\<close>: rate limit, empty-message check, clip loading, response.
  \<open>auth_uid\<close> is \<^verbatim>\<open>context.auth.uid\<close>, \<open>message\<close> and \<open>playlistId\<close> are the fields of \<^verbatim>\<open>data\<close>.
\<close>

definition hfChat ::
  "platform \<Rightarrow> store \<Rightarrow> int \<Rightarrow> buckets \<Rightarrow> string option \<Rightarrow> string option \<Rightarrow> string option \<Rightarrow>
     response \<times> buckets" where
  "hfChat js db now b auth_uid message playlistId =
     (let uid = or_str auth_uid ''anonymous'';
          (ok, b') = withinLimit MAX_REQ_rule now b uid
      in if \<not> ok then (Error ''Rate limit exceeded. Try again shortly.'', b')
         else
           let msg = or_str message ''''
           in if msg = [] \<or> length (trim js msg) = 0 then (Error ''Empty message'', b')
              else
                let clips = (if truthy playlistId then fetchPlaylistClips db uid playlistId 25
                             else [])
                in (respond js clips msg, b'))"

subsection \<open>The search fallback, for its properties\<close>

text \<open>The text that \<open>searchClips\<close> scores, and the score of a clip.\<close>

definition search_text :: "clip \<Rightarrow> string" where
  "search_text c = or_str (clip_title c) '''' @ '' '' @ or_str (description c) ''''"

definition clip_score :: "platform \<Rightarrow> string \<Rightarrow> clip \<Rightarrow> nat" where
  "clip_score js query c = scoreText js query (search_text c)"

definition query_words :: "platform \<Rightarrow> string \<Rightarrow> string list" where
  \<comment> \<open>the whitespace-separated words of the lower-cased query; none for the empty query\<close>
  "query_words js query =
     (if query = [] then []
      else filter (\<lambda>w. w \<noteq> []) (split_runs (is_space js) (toLowerCase js query)))"

text \<open>
  The search as the specification words it: the scored text is the title, the description
  and the tags of the clip.
\<close>

definition search_text_spec :: "clip \<Rightarrow> string" where
  "search_text_spec c =
     or_str (clip_title c) '''' @ '' '' @ or_str (description c) '''' @ '' '' @ join '' '' (tags c)"

definition searchClips_spec :: "platform \<Rightarrow> clip list \<Rightarrow> string \<Rightarrow> clip list" where
  "searchClips_spec js clips query =
     take 5 (sort_key (\<lambda>c. - int (scoreText js query (search_text_spec c)))
               (filter (\<lambda>c. scoreText js query (search_text_spec c) > 0) clips))"

subsection \<open>The playlist context of the Hugging Face function (\<^verbatim>\<open>functions/src/hfChat.ts\<close>)\<close>

definition playlist_name :: "playlist option \<Rightarrow> string" where
  \<comment> \<open>\<^verbatim>\<open>pl?.name || ""\<close>\<close>
  "playlist_name pl = (case pl of None \<Rightarrow> '''' | Some p \<Rightarrow> or_str (name p) '''')"

definition buildPlaylistContext :: "store \<Rightarrow> string \<Rightarrow> string option \<Rightarrow> string" where
  "buildPlaylistContext db uid playlistId =
     (if uid = [] \<or> \<not> truthy playlistId then ''''
      else case get_playlist db uid (the playlistId) of
             Inl e \<Rightarrow> ''''
           | Inr pl \<Rightarrow>
               (case query_clips db uid (the playlistId) 12 of
                  Inl e \<Rightarrow> ''''
                | Inr clips \<Rightarrow>
                    let lines = map_index (\<lambda>c i.
                          show_nat (i + 1) @ ''. '' @
                          template (or_field (customTitle c) (originalUrl c)) @
                          '' '' @ [emdash] @ '' '' @ take 80 (or_str (description c) '''')) clips
                    in if lines = []
                       then ''Playlist: '' @ playlist_name pl @ [CHR 0x0A] @ ''(no clips)'' @
                            [CHR 0x0A, CHR 0x0A]
                       else ''Playlist: '' @ playlist_name pl @ [CHR 0x0A] @
                            join [CHR 0x0A] lines @ [CHR 0x0A, CHR 0x0A]))"

definition systemNote :: string where
  "systemNote = ''You are ClipBook AI Assistant. Use the playlist context when provided. '' @
                ''Be concise, helpful, and reference video titles when relevant.''"

definition hfPrompt :: "store \<Rightarrow> string \<Rightarrow> string option \<Rightarrow> string \<Rightarrow> string" where
  \<comment> \<open>the prompt that the callable sends to the model\<close>
  "hfPrompt db uid playlistId message =
     systemNote @ [CHR 0x0A, CHR 0x0A] @ buildPlaylistContext db uid playlistId @
     ''User: '' @ message @ [CHR 0x0A] @ ''Assistant:''"

subsection \<open>Tag finalisation (\<^verbatim>\<open>saveResult\<close> of the search components)\<close>

definition normalizeTag :: "platform \<Rightarrow> string \<Rightarrow> string" where
  \<comment> \<open>\<^verbatim>\<open>(t || "").toString().trim().toLowerCase()\<close> on a string\<close>
  "normalizeTag js t = toLowerCase js (trim js t)"

text \<open>
  \<^verbatim>\<open>Array.from(new Set(xs))\<close>: a \<^verbatim>\<open>Set\<close> keeps its elements in the order of their first
  insertion.
\<close>

definition Set_add :: "'a list \<Rightarrow> 'a \<Rightarrow> 'a list" where
  "Set_add s x = (if x \<in> set s then s else s @ [x])"

definition Set_from :: "'a list \<Rightarrow> 'a list" where
  "Set_from xs = foldl Set_add [] xs"

definition finalize_tags :: "platform \<Rightarrow> string list \<Rightarrow> string list" where
  \<comment> \<open>\<^verbatim>\<open>Array.from(new Set(tags.map(normalizeTag))).filter(Boolean).slice(0, 3)\<close>\<close>
  "finalize_tags js raw = take 3 (filter (\<lambda>t. t \<noteq> []) (Set_from (map (normalizeTag js) raw)))"

subsection \<open>The profile context (\<^verbatim>\<open>src/ChatAI_HF.jsx\<close>)\<close>

record user =
  user_displayName :: "string option"
  user_email :: "string option"
  user_uid :: string

definition truncate :: "string \<Rightarrow> nat \<Rightarrow> string" where
  \<comment> \<open>\<^verbatim>\<open>typeof s === "string" && s.length > n ? s.slice(0, n - 1) + "\<dots>" : s || ""\<close>\<close>
  "truncate s n = (if length s > n then take (n - 1) s @ [ellipsis] else s)"

definition fmtDate :: "(int \<Rightarrow> string) \<Rightarrow> int option \<Rightarrow> string" where
  \<comment> \<open>\<open>toLocaleString\<close> is the locale-dependent rendering of a date\<close>
  "fmtDate toLocaleString ts =
     (case ts of None \<Rightarrow> ''unknown''
      | Some t \<Rightarrow> if t = 0 then ''unknown'' else toLocaleString t)"

definition created_or_0 :: "clip \<Rightarrow> int" where
  \<comment> \<open>\<^verbatim>\<open>c.createdAt || 0\<close>\<close>
  "created_or_0 c = (case createdAt c of None \<Rightarrow> 0 | Some t \<Rightarrow> t)"

definition sample_line :: "(int \<Rightarrow> string) \<Rightarrow> clip \<Rightarrow> string" where
  \<comment> \<open>the one or two lines of a sample clip\<close>
  "sample_line toLocaleString c =
     (let sc_title = truncate (or_str (or_field (customTitle c) (originalUrl c)) ''No title'') 140;
          sc_watchUrl = or_str (or_field (watchUrl c) (originalUrl c)) '''';
          sc_createdAt = fmtDate toLocaleString (createdAt c);
          sc_playlists = join '','' (playlistIds c);
          sc_tags = join '','' (tags c);
          sc_desc = truncate (or_str (description c) '''') 240
      in ''- ['' @ template (clip_id c) @ ''] Title: '' @ sc_title @ ''; Date: '' @ sc_createdAt @
         ''; Playlists: '' @ sc_playlists @ ''; Tags: '' @ sc_tags @ ''; URL: '' @ sc_watchUrl @
         [CHR 0x0A] @
         (if sc_desc \<noteq> [] then ''  Desc: '' @ sc_desc @ [CHR 0x0A] else ''''))"

definition profile_text :: "platform \<Rightarrow> (int \<Rightarrow> string) \<Rightarrow> user \<Rightarrow> clip list \<Rightarrow> playlist list \<Rightarrow> string" where
  \<comment> \<open>the variable \<^verbatim>\<open>out\<close> before the length check\<close>
  "profile_text js toLocaleString u clips playlists =
     (let totalClips = length clips;
          totalPlaylists = length playlists;
          siteCounts = count_keys js (map (\<lambda>c. or_str (videoSite c) ''unknown'') clips);
          tagCounts = count_keys js (concat (map tags clips));
          topTags = map (\<lambda>(t, count). t @ ''('' @ show_val count @ '')'')
                      (take 6 (sort_by_count_desc js (object_entries tagCounts)));
          playlistNames = take 20 (map (\<lambda>p. or_str (name p) '''') playlists);
          sampleClips = take 12 (sort_key (\<lambda>c. - created_or_0 c) clips)
      in ''User: '' @
           or_str (or_field (user_displayName u) (user_email u)) (user_uid u) @ [CHR 0x0A] @
         ''TotalClips: '' @ show_nat totalClips @ ''; Playlists: '' @ show_nat totalPlaylists @
           '';'' @ [CHR 0x0A] @
         ''BySite: '' @
           or_lit (join '', '' (map (\<lambda>(s, n). s @ '':'' @ show_val n) (object_entries siteCounts)))
             ''none'' @ [CHR 0x0A] @
         ''TopTags: '' @ or_lit (join '', '' topTags) ''none'' @ [CHR 0x0A] @
         ''Playlists: '' @ or_lit (join '' | '' playlistNames) ''none'' @ [CHR 0x0A] @
         ''SampleClips:'' @ [CHR 0x0A] @
         concat (map (sample_line toLocaleString) sampleClips))"

definition truncation_marker :: string where
  \<comment> \<open>\<^verbatim>\<open>"\n\<dots>(truncated)"\<close>\<close>
  "truncation_marker = [CHR 0x0A, ellipsis] @ ''(truncated)''"

definition buildProfileContext ::
  "platform \<Rightarrow> (int \<Rightarrow> string) \<Rightarrow> user option \<Rightarrow> clip list \<Rightarrow> playlist list \<Rightarrow> string" where
  "buildProfileContext js toLocaleString usr clips playlists =
     (case usr of
        None \<Rightarrow> ''No user logged in.''
      | Some u \<Rightarrow>
          let out = profile_text js toLocaleString u clips playlists
          in if length out > 18000 then take 17900 out @ truncation_marker else out)"

subsection \<open>The browser-side responder (\<^verbatim>\<open>src/ChatAI_free.jsx\<close>)\<close>

definition shortText_free :: "string option \<Rightarrow> nat \<Rightarrow> string" where
  \<comment> \<open>\<^verbatim>\<open>shortText(text, max)\<close> of this component\<close>
  "shortText_free s m =
     (case s of None \<Rightarrow> ''''
      | Some s \<Rightarrow> if s = [] then '''' else if length s > m then take (m - 1) s @ [ellipsis] else s)"

definition stopwords :: "string list" where
  "stopwords = [''the'', ''is'', ''in'', ''and'', ''to'', ''of'', ''for'', ''with'', ''on'', ''by'',
                ''an'', ''be'']"

definition is_lower_alnum_or_space :: "platform \<Rightarrow> char \<Rightarrow> bool" where
  \<comment> \<open>\<^verbatim>\<open>[a-z0-9\s]\<close>\<close>
  "is_lower_alnum_or_space js c =
     (let n = (of_char c :: int)
      in (97 \<le> n \<and> n \<le> 122) \<or> (48 \<le> n \<and> n \<le> 57) \<or> is_space js c)"

definition extractKeywordsFromTitle :: "platform \<Rightarrow> string \<Rightarrow> string list" where
  "extractKeywordsFromTitle js t =
     (if t = [] then []
      else take 6 (filter (\<lambda>w. length w > 3 \<and> w \<notin> set stopwords)
             (split_runs (is_space js)
                (map (\<lambda>c. if is_lower_alnum_or_space js c then c else CHR '' '') (toLowerCase js t)))))"

text \<open>
  The reads of the component: the playlist document (\<open>None\<close> when the query is empty),
  the clips of the playlist and the clips of the whole library, newest first.
\<close>

record client_store =
  find_playlist :: "string \<Rightarrow> string \<Rightarrow> read_error + playlist option"
  playlist_clips :: "string \<Rightarrow> string \<Rightarrow> read_error + clip list"
  library_clips :: "string \<Rightarrow> read_error + clip list"

definition fetchPlaylistContext ::
  "client_store \<Rightarrow> string option \<Rightarrow> string option \<Rightarrow> playlist option \<times> clip list" where
  "fetchPlaylistContext db uid pid =
     (if \<not> truthy uid \<or> \<not> truthy pid then (None, [])
      else case find_playlist db (the uid) (the pid) of
             Inl e \<Rightarrow> (None, [])
           | Inr pl \<Rightarrow>
               (case playlist_clips db (the uid) (the pid) of
                  Inl e \<Rightarrow> (None, [])
                | Inr clips \<Rightarrow> (pl, clips)))"

definition is_number :: "duration \<Rightarrow> bool" where
  \<comment> \<open>\<^verbatim>\<open>typeof c.duration === "number"\<close>\<close>
  "is_number d = (case d of Duration n \<Rightarrow> True | _ \<Rightarrow> False)"

definition duration_value :: "clip \<Rightarrow> int" where
  "duration_value c = (case duration c of Duration n \<Rightarrow> n | _ \<Rightarrow> 0)"

text \<open>
  The choice of the recommend branch, for the non-empty clip list \<open>c0 # rest\<close> it is
  reached with: the first unwatched clip (else the first clip), replaced by the clip of
  least numeric duration when that clip is unwatched.
\<close>

definition recommend_candidate :: "clip \<Rightarrow> clip list \<Rightarrow> clip" where
  "recommend_candidate c0 rest =
     (let clips = c0 # rest;
          candidate = (case find (\<lambda>c. \<not> watched c) clips of Some c \<Rightarrow> c | None \<Rightarrow> c0)
      in if \<not> list_all (\<lambda>c. duration c = NoDuration) clips
         then
           (case sort_key duration_value (filter (\<lambda>c. is_number (duration c)) clips) of
              [] \<Rightarrow> candidate
            | shortOne # others \<Rightarrow> if \<not> watched shortOne then shortOne else candidate)
         else candidate)"

text \<open>
  The rule as the specification words it: the shortest unwatched clip among the clips
  with a numeric duration (the code's first choice when there is none).
\<close>

definition recommend_candidate_spec :: "clip \<Rightarrow> clip list \<Rightarrow> clip" where
  "recommend_candidate_spec c0 rest =
     (let clips = c0 # rest;
          candidate = (case find (\<lambda>c. \<not> watched c) clips of Some c \<Rightarrow> c | None \<Rightarrow> c0)
      in case sort_key duration_value
                (filter (\<lambda>c. is_number (duration c) \<and> \<not> watched c) clips) of
           [] \<Rightarrow> candidate
         | shortOne # others \<Rightarrow> shortOne)"

definition title_or_url :: "clip \<Rightarrow> nat \<Rightarrow> string" where
  \<comment> \<open>\<^verbatim>\<open>c.customTitle || shortText(c.originalUrl, n)\<close>\<close>
  "title_or_url c n =
     (if truthy (customTitle c) then the (customTitle c) else shortText_free (originalUrl c) n)"

definition handleMessageRaw ::
  "platform \<Rightarrow> client_store \<Rightarrow> string option \<Rightarrow> string option \<Rightarrow> string \<Rightarrow> read_error + string" where
  "handleMessageRaw js db uid playlistId text =
     (let msg = toLowerCase js (trim js text)
      in if msg = ''help'' \<or> msg = ''what can you do''
         then Inr (''I can:'' @ [CHR 0x0A] @
                   ''- Summarize a playlist: \"summarize playlist\"'' @ [CHR 0x0A] @
                   ''- Recommend next: \"recommend next\"'' @ [CHR 0x0A] @
                   ''- Create a study plan: \"study plan\"'' @ [CHR 0x0A] @
                   ''- Make a quiz: \"quiz me\"'' @ [CHR 0x0A] @
                   ''Select a playlist in the UI first for playlist-specific answers.'')
         else if str_includes msg ''playlist'' \<or> str_includes msg ''summarize'' \<or>
                 str_includes msg ''what's in'' \<or> str_includes msg ''what is in''
         then
           (if \<not> truthy uid then Inr ''Sign in to use playlist features.''
            else if \<not> truthy playlistId
            then Inr ''No playlist selected. Select a playlist and try again.''
            else
              let (pl, clips) = fetchPlaylistContext db uid playlistId
              in case pl of
                   None \<Rightarrow> Inr ''Playlist not found or empty.''
                 | Some p \<Rightarrow>
                     if clips = []
                     then Inr (''Playlist \"'' @ template (name p) @ ''\" looks empty.'')
                     else Inr (''Playlist \"'' @ template (name p) @ ''\" '' @ [emdash] @ '' '' @
                               show_nat (length clips) @ '' video(s):'' @ [CHR 0x0A] @
                               join [CHR 0x0A]
                                 (map_index (\<lambda>c i.
                                    show_nat (i + 1) @ ''. '' @ title_or_url c 40 @
                                    '' '' @ [emdash] @ '' '' @
                                    shortText_free (Some (or_str (description c) '''')) 80)
                                  (take 12 clips))))
         else if str_includes msg ''recommend'' \<or> str_includes msg ''next'' \<or>
                 str_includes msg ''what to watch''
         then
           (if \<not> truthy uid then Inr ''Sign in to use playlist features.''
            else if \<not> truthy playlistId
            then Inr ''No playlist selected. Select a playlist and try again.''
            else
              let (pl, clips) = fetchPlaylistContext db uid playlistId
              in case clips of
                   [] \<Rightarrow> Inr ''Playlist empty.''
                 | c0 # rest \<Rightarrow>
                     let candidate = recommend_candidate c0 rest
                     in Inr (''Recommended next: '' @ title_or_url candidate 60 @ [CHR 0x0A] @
                             ''Open: '' @
                             or_str (or_field (watchUrl candidate) (originalUrl candidate))
                               ''No link available''))
         else if str_includes msg ''study plan'' \<or> str_includes msg ''order'' \<or>
                 str_includes msg ''learning path''
         then
           (if \<not> truthy uid then Inr ''Sign in to use playlist features.''
            else if \<not> truthy playlistId
            then Inr ''No playlist selected. Select a playlist and try again.''
            else
              let (pl, clips) = fetchPlaylistContext db uid playlistId
              in if clips = [] then Inr ''Playlist empty.''
                 else
                   let ordered = sort_key created_or_0 clips
                   in Inr (''Study plan for \"'' @
                           (case pl of None \<Rightarrow> ''playlist'' | Some p \<Rightarrow> or_str (name p) ''playlist'') @
                           ''\":'' @ [CHR 0x0A] @
                           join [CHR 0x0A]
                             (map_index (\<lambda>c i. show_nat (i + 1) @ ''. '' @ title_or_url c 60)
                                (take 20 ordered))))
         else if str_includes msg ''quiz'' \<or> str_includes msg ''question'' \<or>
                 str_includes msg ''quiz me''
         then
           (if \<not> truthy uid then Inr ''Sign in to use playlist features.''
            else if \<not> truthy playlistId
            then Inr ''No playlist selected. Select a playlist and try again.''
            else
              let (pl, clips) = fetchPlaylistContext db uid playlistId
              in if clips = [] then Inr ''Playlist empty.''
                 else
                   Inr (''Quick quiz (short answers):'' @ [CHR 0x0A] @
                        join [CHR 0x0A]
                          (map_index (\<lambda>c i.
                             let t = or_str (customTitle c) '''';
                                 keywords = extractKeywordsFromTitle js t;
                                 kw = (case keywords of
                                         k # ks \<Rightarrow> k
                                       | [] \<Rightarrow> or_str (nth_opt (split_char (CHR '' '') t) 0) ''topic'')
                             in show_nat (i + 1) @ ''. What is the main idea of \"'' @
                                shortText_free (Some t) 60 @ ''\"? (Hint: '' @ kw @ '')'')
                           (take 6 clips))))
         else if length msg > 2
         then
           (if \<not> truthy uid then Inr ''Sign in to search your clips.''
            else case library_clips db (the uid) of
                   Inl e \<Rightarrow> Inl e
                 | Inr clips \<Rightarrow>
                     let matches = filter (\<lambda>c.
                           str_includes
                             (toLowerCase js (or_str (customTitle c) '''') @ '' '' @
                              toLowerCase js (or_str (description c) '''')) msg \<or>
                           list_ex (\<lambda>tg. str_includes (toLowerCase js tg) msg) (tags c)) clips
                     in if matches = [] then Inr ''No matching clips found in your library.''
                        else Inr (''Found '' @ show_nat (length matches) @ '' matching clip(s):'' @
                                  [CHR 0x0A] @
                                  join [CHR 0x0A, CHR 0x0A]
                                    (map_index (\<lambda>c i.
                                       show_nat (i + 1) @ ''. '' @ title_or_url c 60 @
                                       '' '' @ [emdash] @ '' '' @
                                       shortText_free (Some (or_str (description c) '''')) 80 @
                                       [CHR 0x0A] @ ''Open: '' @
                                       or_str (or_field (watchUrl c) (originalUrl c)) '''')
                                     (take 8 matches))))
         else Inr (''I didn't understand that. Try: 'summarize playlist', 'recommend next', '' @
                   '''study plan', or 'quiz me'.''))"

subsection \<open>Embed information (\<^verbatim>\<open>getEmbedInfo\<close> of the dashboard)\<close>

text \<open>
  The parts of a parsed URL that the function reads: \<^verbatim>\<open>u.hostname\<close>,
  \<^verbatim>\<open>u.searchParams.get("v")\<close> (\<open>None\<close> when there is no such parameter) and \<^verbatim>\<open>u.pathname\<close>.
  The platform's parser \<^verbatim>\<open>new URL(url)\<close> is a parameter: \<open>None\<close> is the \<^verbatim>\<open>TypeError\<close> it
  throws on a string that is not a URL.
\<close>

record url =
  hostname :: string
  search_v :: "string option"
  pathname :: string

record embed_info =
  site :: string
  embedUrl :: "string option"
  embedable :: bool
  info_watchUrl :: "string option"

definition path_parts :: "string \<Rightarrow> string list" where
  \<comment> \<open>\<^verbatim>\<open>u.pathname.split("/").filter(Boolean)\<close>\<close>
  "path_parts p = filter (\<lambda>s. s \<noteq> []) (split_char (CHR ''/'') p)"

definition is_line_terminator :: "char \<Rightarrow> bool" where
  "is_line_terminator c = (c = CHR 0x0A \<or> c = CHR 0x0D)"

definition video_ext_here :: "string \<Rightarrow> bool" where
  \<comment> \<open>\<^verbatim>\<open>\.(mp4|webm|ogg)(\?.*)?$\<close> matched at the start of \<open>s\<close>, ignoring case\<close>
  "video_ext_here s =
     list_ex (\<lambda>ext. prefix (CHR ''.'' # ext) (map lower_char s) \<and>
                (let rest = drop (Suc (length ext)) s
                 in rest = [] \<or> (hd rest = CHR ''?'' \<and> \<not> list_ex is_line_terminator (tl rest))))
       [''mp4'', ''webm'', ''ogg'']"

definition is_video_file :: "string \<Rightarrow> bool" where
  \<comment> \<open>\<^verbatim>\<open>url.match(/\.(mp4|webm|ogg)(\?.*)?$/i)\<close>\<close>
  "is_video_file u = list_ex video_ext_here (suffixes u)"

definition getEmbedInfo :: "platform \<Rightarrow> (string \<Rightarrow> url option) \<Rightarrow> string \<Rightarrow> embed_info" where
  "getEmbedInfo js parse rawUrl =
     (if rawUrl = []
      then \<lparr>site = ''unknown'', embedUrl = None, embedable = False, info_watchUrl = None\<rparr>
      else
        let u_str = trim js rawUrl
        in case parse u_str of
             None \<Rightarrow> \<lparr>site = ''invalid'', embedUrl = None, embedable = False, info_watchUrl = None\<rparr>
           | Some u \<Rightarrow>
               let host = toLowerCase js (hostname u);
                   yt_id = or_field (search_v u) (nth_opt (split_char (CHR ''/'') (pathname u)) 1);
                   last_id = pop_opt (path_parts (pathname u));
                   mc_id = nth_opt (path_parts (pathname u)) 1
               in if (str_includes host ''youtube.com'' \<or> host = ''youtu.be'') \<and> truthy yt_id
                  then \<lparr>site = ''youtube'',
                        embedUrl = Some (''https://www.youtube.com/embed/'' @ the yt_id),
                        embedable = True,
                        info_watchUrl = Some (''https://www.youtube.com/watch?v='' @ the yt_id)\<rparr>
                  else if str_includes host ''vimeo.com'' \<and> truthy last_id
                  then \<lparr>site = ''vimeo'',
                        embedUrl = Some (''https://player.vimeo.com/video/'' @ the last_id),
                        embedable = True,
                        info_watchUrl = Some (''https://vimeo.com/'' @ the last_id)\<rparr>
                  else if (str_includes host ''dailymotion.com'' \<or> str_includes host ''dai.ly'') \<and>
                          truthy last_id
                  then \<lparr>site = ''dailymotion'',
                        embedUrl = Some (''https://www.dailymotion.com/embed/video/'' @ the last_id),
                        embedable = True,
                        info_watchUrl = Some (''https://'' @ host @ ''/video/'' @ the last_id)\<rparr>
                  else if str_includes host ''metacafe.com'' \<and> truthy mc_id
                  then \<lparr>site = ''metacafe'',
                        embedUrl = Some (''https://www.metacafe.com/embed/'' @ the mc_id @ ''/''),
                        embedable = True,
                        info_watchUrl = Some u_str\<rparr>
                  else if is_video_file u_str
                  then \<lparr>site = ''file'', embedUrl = Some u_str, embedable = True,
                        info_watchUrl = Some u_str\<rparr>
                  else \<lparr>site = host, embedUrl = Some u_str, embedable = False,
                        info_watchUrl = Some u_str\<rparr>)"

section \<open>Properties of the rate limiter\<close>

lemma withinLimit_bucket:
  "bucket_of (snd (withinLimit N now b uid)) uid =
     filter (\<lambda>t. now - t < WINDOW_MS) (bucket_of b uid) @
       (if fst (withinLimit N now b uid) then [now] else [])"
  by (simp add: withinLimit_def bucket_of_def Let_def)

lemma withinLimit_fst:
  "fst (withinLimit N now b uid) \<longleftrightarrow>
     length (filter (\<lambda>t. now - t < WINDOW_MS) (bucket_of b uid)) < N"
  by (simp add: withinLimit_def Let_def)

lemma withinLimit_other:
  "uid' \<noteq> uid \<Longrightarrow> bucket_of (snd (withinLimit N now b uid)) uid' = bucket_of b uid'"
  by (simp add: withinLimit_def bucket_of_def Let_def)

lemma withinLimit_length:
  assumes "length (bucket_of b u) \<le> N"
  shows "length (bucket_of (snd (withinLimit N now b uid)) u) \<le> N"
proof (cases "u = uid")
  case False
  then show ?thesis using assms by (simp add: withinLimit_other)
next
  case True
  let ?recent = "filter (\<lambda>t. now - t < WINDOW_MS) (bucket_of b uid)"
  have le: "length ?recent \<le> N"
    using assms \<open>u = uid\<close> by (auto intro: order_trans [OF length_filter_le])
  show ?thesis
  proof (cases "fst (withinLimit N now b uid)")
    case True
    then have "length ?recent < N" by (simp add: withinLimit_fst)
    then show ?thesis using \<open>u = uid\<close> True by (simp add: withinLimit_bucket)
  next
    case False
    then show ?thesis using \<open>u = uid\<close> le by (simp add: withinLimit_bucket)
  qed
qed

lemma run_calls_length:
  "length (bucket_of b u) \<le> N \<Longrightarrow> length (bucket_of (run_calls N b cs) u) \<le> N"
proof (induction cs arbitrary: b)
  case Nil
  then show ?case by simp
next
  case (Cons c cs)
  obtain uid now where c: "c = (uid, now)" by (cases c)
  show ?case unfolding c run_calls.simps
    by (rule Cons.IH) (rule withinLimit_length [OF Cons.prems])
qed

lemma run_calls_empty_length: "length (bucket_of (run_calls N Map.empty cs) u) \<le> N"
  by (rule run_calls_length) (simp add: bucket_of_def)

lemma calls_of_all_accepted:
  assumes "length (bucket_of b uid) + length ts \<le> N"
    and "\<forall>t\<in>set ts. \<forall>x\<in>set (bucket_of b uid) \<union> set ts. t - x < WINDOW_MS"
  shows "fst (calls_of N b uid ts) = replicate (length ts) True \<and>
         bucket_of (snd (calls_of N b uid ts)) uid = bucket_of b uid @ ts"
  using assms
proof (induction ts arbitrary: b)
  case Nil
  then show ?case by simp
next
  case (Cons now ts)
  let ?arr = "bucket_of b uid"
  have keep: "filter (\<lambda>t. now - t < WINDOW_MS) ?arr = ?arr"
    using Cons.prems(2) by (auto simp: filter_id_conv)
  have acc: "fst (withinLimit N now b uid)"
    using Cons.prems(1) by (simp add: withinLimit_fst keep)
  let ?b' = "snd (withinLimit N now b uid)"
  have b': "bucket_of ?b' uid = ?arr @ [now]"
    using acc by (simp add: withinLimit_bucket keep)
  have "fst (calls_of N ?b' uid ts) = replicate (length ts) True \<and>
        bucket_of (snd (calls_of N ?b' uid ts)) uid = bucket_of ?b' uid @ ts"
  proof (rule Cons.IH)
    show "length (bucket_of ?b' uid) + length ts \<le> N"
      using Cons.prems(1) by (simp add: b')
    show "\<forall>t\<in>set ts. \<forall>x\<in>set (bucket_of ?b' uid) \<union> set ts. t - x < WINDOW_MS"
      using Cons.prems(2) by (auto simp: b')
  qed
  then show ?case using acc by (simp add: b' split_beta Let_def)
qed

lemma calls_of_append:
  "calls_of N b uid (ts @ us) =
     (fst (calls_of N b uid ts) @ fst (calls_of N (snd (calls_of N b uid ts)) uid us),
      snd (calls_of N (snd (calls_of N b uid ts)) uid us))"
  by (induction ts arbitrary: b) (simp_all add: split_beta Let_def)

lemma withinLimit_full:
  "N \<le> length (filter (\<lambda>t. now - t < WINDOW_MS) (bucket_of b uid)) \<Longrightarrow>
     \<not> fst (withinLimit N now b uid)"
  by (simp add: withinLimit_fst)

lemma withinLimit_recent:
  assumes "t \<in> set (bucket_of (snd (withinLimit N now b uid)) uid)"
  shows "now - t < WINDOW_MS"
proof (cases "fst (withinLimit N now b uid)")
  case True
  with assms show ?thesis by (auto simp add: withinLimit_bucket WINDOW_MS_def)
next
  case False
  with assms show ?thesis by (simp add: withinLimit_bucket)
qed

lemma withinLimit_after_window:
  assumes "length (bucket_of b uid) \<le> N"
    and "t \<in> set (bucket_of b uid)" and "WINDOW_MS \<le> now - t"
  shows "fst (withinLimit N now b uid)"
proof -
  have "\<not> now - t < WINDOW_MS" using assms(3) by simp
  with assms(2)
  have "length (filter (\<lambda>t. now - t < WINDOW_MS) (bucket_of b uid)) < length (bucket_of b uid)"
    by (rule length_filter_less)
  with assms(1) show ?thesis by (simp add: withinLimit_fst)
qed

lemma calls_of_cap_then_reject_fresh:
  assumes "bucket_of b uid = []" and "length ts = N"
    and "\<forall>t\<in>set (ts @ [t']). \<forall>x\<in>set (ts @ [t']). t - x < WINDOW_MS"
  shows "fst (calls_of N b uid (ts @ [t'])) = replicate N True @ [False]"
proof -
  have all: "fst (calls_of N b uid ts) = replicate (length ts) True \<and>
        bucket_of (snd (calls_of N b uid ts)) uid = bucket_of b uid @ ts"
    by (rule calls_of_all_accepted) (use assms in auto)
  let ?b = "snd (calls_of N b uid ts)"
  have bucket: "bucket_of ?b uid = ts" using all assms(1) by simp
  have "filter (\<lambda>t. t' - t < WINDOW_MS) ts = ts"
    using assms(3) by (auto simp: filter_id_conv)
  then have "\<not> fst (withinLimit N t' ?b uid)"
    using assms(2) by (simp add: withinLimit_fst bucket)
  then show ?thesis
    using all assms(2) by (simp add: calls_of_append split_beta Let_def)
qed

text \<open>Timestamps that are out of the window of a call do not influence it.\<close>

lemma withinLimit_stale:
  assumes "\<forall>x\<in>set (bucket_of b uid). WINDOW_MS \<le> now - x"
  shows "withinLimit N now b uid = withinLimit N now (b(uid := None)) uid"
proof -
  have "filter (\<lambda>t. now - t < WINDOW_MS) (bucket_of b uid) = []"
    using assms by (auto simp: filter_empty_conv)
  moreover have "bucket_of (b(uid := None)) uid = []" by (simp add: bucket_of_def)
  ultimately show ?thesis by (simp add: withinLimit_def Let_def)
qed

lemma calls_of_stale:
  assumes "\<forall>x\<in>set (bucket_of b uid). WINDOW_MS \<le> now - x"
  shows "calls_of N b uid (now # ts) = calls_of N (b(uid := None)) uid (now # ts)"
  by (simp add: withinLimit_stale [OF assms])

lemma calls_of_cap_then_reject:
  assumes "0 < N" and "length ts = N"
    and "\<forall>t\<in>set (ts @ [t']). \<forall>x\<in>set (bucket_of b uid). WINDOW_MS \<le> t - x"
    and "\<forall>t\<in>set (ts @ [t']). \<forall>x\<in>set (ts @ [t']). t - x < WINDOW_MS"
  shows "fst (calls_of N b uid (ts @ [t'])) = replicate N True @ [False]"
proof -
  from assms(1,2) obtain t0 ts0 where ts: "ts = t0 # ts0" by (cases ts) auto
  have "\<forall>x\<in>set (bucket_of b uid). WINDOW_MS \<le> t0 - x"
    using assms(3) by (simp add: ts)
  then have "calls_of N b uid (t0 # (ts0 @ [t'])) =
             calls_of N (b(uid := None)) uid (t0 # (ts0 @ [t']))"
    by (rule calls_of_stale)
  then have "calls_of N b uid (ts @ [t']) = calls_of N (b(uid := None)) uid (ts @ [t'])"
    by (simp only: ts append_Cons)
  moreover have "fst (calls_of N (b(uid := None)) uid (ts @ [t'])) = replicate N True @ [False]"
    by (rule calls_of_cap_then_reject_fresh) (use assms in \<open>simp_all add: bucket_of_def\<close>)
  ultimately show ?thesis by simp
qed

text \<open>
  C1. With window \<open>W = 60000\<close> ms and cap \<open>N\<close> (20 in the rule-based function, 15 in the
  Hugging Face one), for every user id:
  \<^item> each call keeps exactly the recorded timestamps \<open>t\<close> with \<open>now - t < W\<close> (so every
    timestamp older than \<open>W\<close> is dropped) and appends \<open>now\<close> when it accepts;
  \<^item> a call that finds \<open>N\<close> recorded timestamps within the window is rejected; in
    particular, of \<open>N + 1\<close> calls of a user whose times lie less than \<open>W\<close> apart, and at
    least \<open>W\<close> after everything recorded for the user before, the first \<open>N\<close> are accepted
    and the last one is rejected;
  \<^item> in every state the limiter can reach, a call made when \<open>W\<close> has elapsed since some
    recorded call of the user (the oldest one in particular) is accepted.
\<close>

theorem C1_withinLimit_cap_and_window:
  "(N = MAX_REQ_rule \<or> N = MAX_REQ_hf) \<longrightarrow>
     bucket_of (snd (withinLimit N now b uid)) uid =
        filter (\<lambda>t. now - t < WINDOW_MS) (bucket_of b uid) @
          (if fst (withinLimit N now b uid) then [now] else []) \<and>
     (\<forall>t. WINDOW_MS < now - t \<longrightarrow> t \<notin> set (bucket_of (snd (withinLimit N now b uid)) uid)) \<and>
     (N \<le> length (filter (\<lambda>t. now - t < WINDOW_MS) (bucket_of b uid)) \<longrightarrow>
        \<not> fst (withinLimit N now b uid)) \<and>
     (length ts = N \<and>
      (\<forall>t\<in>set (ts @ [t']). \<forall>x\<in>set (bucket_of b uid). WINDOW_MS \<le> t - x) \<and>
      (\<forall>t\<in>set (ts @ [t']). \<forall>x\<in>set (ts @ [t']). t - x < WINDOW_MS) \<longrightarrow>
        fst (calls_of N b uid (ts @ [t'])) = replicate N True @ [False]) \<and>
     (\<forall>t\<in>set (bucket_of (run_calls N Map.empty cs) uid).
        WINDOW_MS \<le> now - t \<longrightarrow> fst (withinLimit N now (run_calls N Map.empty cs) uid))"
proof (intro impI conjI allI ballI)
  show "bucket_of (snd (withinLimit N now b uid)) uid =
        filter (\<lambda>t. now - t < WINDOW_MS) (bucket_of b uid) @
          (if fst (withinLimit N now b uid) then [now] else [])"
    by (rule withinLimit_bucket)
next
  assume "N = MAX_REQ_rule \<or> N = MAX_REQ_hf"
  then have pos: "0 < N" by (auto simp: MAX_REQ_rule_def MAX_REQ_hf_def)
  assume "length ts = N \<and>
      (\<forall>t\<in>set (ts @ [t']). \<forall>x\<in>set (bucket_of b uid). WINDOW_MS \<le> t - x) \<and>
      (\<forall>t\<in>set (ts @ [t']). \<forall>x\<in>set (ts @ [t']). t - x < WINDOW_MS)"
  then have "length ts = N"
    and "\<forall>t\<in>set (ts @ [t']). \<forall>x\<in>set (bucket_of b uid). WINDOW_MS \<le> t - x"
    and "\<forall>t\<in>set (ts @ [t']). \<forall>x\<in>set (ts @ [t']). t - x < WINDOW_MS"
    by simp_all
  with pos show "fst (calls_of N b uid (ts @ [t'])) = replicate N True @ [False]"
    by (rule calls_of_cap_then_reject)
next
  fix t assume "WINDOW_MS < now - t"
  then show "t \<notin> set (bucket_of (snd (withinLimit N now b uid)) uid)"
    using withinLimit_recent [of t N now b uid] by auto
next
  assume "N \<le> length (filter (\<lambda>t. now - t < WINDOW_MS) (bucket_of b uid))"
  then show "\<not> fst (withinLimit N now b uid)" by (rule withinLimit_full)
next
  fix t assume "t \<in> set (bucket_of (run_calls N Map.empty cs) uid)" "WINDOW_MS \<le> now - t"
  then show "fst (withinLimit N now (run_calls N Map.empty cs) uid)"
    by (rule withinLimit_after_window [OF run_calls_empty_length])
qed

theorem C1_withinLimit_cap_and_window_witness:
  "fst (calls_of MAX_REQ_hf [''u1'' \<mapsto> [-100000, -90000]] ''u1''
          ([0, 1000, 2000, 3000, 4000, 5000, 6000, 7000, 8000, 9000, 10000, 11000, 12000,
            13000, 14000] @ [59999])) = replicate MAX_REQ_hf True @ [False] \<and>
   0 \<in> set (bucket_of (run_calls MAX_REQ_hf Map.empty [(''u1'', 0)]) ''u1'') \<and>
   fst (withinLimit MAX_REQ_hf 60000 (run_calls MAX_REQ_hf Map.empty [(''u1'', 0)]) ''u1'')"
proof -
  let ?ts = "[0, 1000, 2000, 3000, 4000, 5000, 6000, 7000, 8000, 9000, 10000, 11000, 12000,
            13000, 14000] :: int list"
  let ?b = "[''u1'' \<mapsto> [-100000, -90000 :: int]]"
  have h0: "MAX_REQ_hf = MAX_REQ_rule \<or> MAX_REQ_hf = MAX_REQ_hf" by simp
  have h1: "\<forall>t\<in>set (?ts @ [59999]). \<forall>x\<in>set (bucket_of ?b ''u1''). WINDOW_MS \<le> t - x"
    by (simp add: bucket_of_def WINDOW_MS_def)
  have h2: "length ?ts = MAX_REQ_hf" by (simp add: MAX_REQ_hf_def)
  have h3: "\<forall>t\<in>set (?ts @ [59999]). \<forall>x\<in>set (?ts @ [59999]). t - x < WINDOW_MS"
    by (simp add: WINDOW_MS_def)
  have h4: "0 \<in> set (bucket_of (run_calls MAX_REQ_hf Map.empty [(''u1'', 0)]) ''u1'')"
    by (simp add: withinLimit_def bucket_of_def MAX_REQ_hf_def WINDOW_MS_def)
  have h5: "WINDOW_MS \<le> 60000 - 0" by (simp add: WINDOW_MS_def)
  note inst = C1_withinLimit_cap_and_window
      [of MAX_REQ_hf 60000 ?b "''u1''" ?ts 59999 "[(''u1'', 0)]", THEN mp, OF h0]
  from inst h1 h2 h3 have a: "fst (calls_of MAX_REQ_hf ?b ''u1'' (?ts @ [59999])) =
      replicate MAX_REQ_hf True @ [False]"
    by blast
  from inst h4 h5
  have b: "fst (withinLimit MAX_REQ_hf 60000 (run_calls MAX_REQ_hf Map.empty [(''u1'', 0)]) ''u1'')"
    by blast
  from a h4 b show ?thesis by blast
qed

text \<open>
  C9. In every state the limiter can reach (any sequence of calls from the empty
  \<^verbatim>\<open>buckets\<close>), after a call of \<open>uid\<close> at time \<open>now\<close>, accepted or rejected, the bucket of
  \<open>uid\<close> holds at most \<open>MAX_REQ\<close> timestamps, each stored \<open>t\<close> has \<open>now - t < WINDOW_MS\<close>, and
  a rejected call stores the recent part of the old bucket and nothing else.
\<close>

theorem C9_bucket_invariant:
  "(N = MAX_REQ_rule \<or> N = MAX_REQ_hf) \<longrightarrow>
   (let b = run_calls N Map.empty cs;
        r = withinLimit N now b uid
    in length (bucket_of (snd r) uid) \<le> N \<and>
       (\<forall>t\<in>set (bucket_of (snd r) uid). now - t < WINDOW_MS) \<and>
       (\<not> fst r \<longrightarrow>
          bucket_of (snd r) uid = filter (\<lambda>t. now - t < WINDOW_MS) (bucket_of b uid) \<and>
          set (bucket_of (snd r) uid) \<subseteq> set (bucket_of b uid) \<and>
          length (bucket_of (snd r) uid) \<le> length (bucket_of b uid)))"
proof -
  let ?b = "run_calls N Map.empty cs"
  have 1: "length (bucket_of (snd (withinLimit N now ?b uid)) uid) \<le> N"
    by (rule withinLimit_length [OF run_calls_empty_length])
  have 2: "\<forall>t\<in>set (bucket_of (snd (withinLimit N now ?b uid)) uid). now - t < WINDOW_MS"
    by (blast intro: withinLimit_recent)
  have 3: "\<not> fst (withinLimit N now ?b uid) \<longrightarrow>
          bucket_of (snd (withinLimit N now ?b uid)) uid =
            filter (\<lambda>t. now - t < WINDOW_MS) (bucket_of ?b uid) \<and>
          set (bucket_of (snd (withinLimit N now ?b uid)) uid) \<subseteq> set (bucket_of ?b uid) \<and>
          length (bucket_of (snd (withinLimit N now ?b uid)) uid) \<le> length (bucket_of ?b uid)"
    by (simp add: withinLimit_bucket)
  show ?thesis unfolding Let_def using 1 2 3 by blast
qed

theorem C9_bucket_invariant_witness:
  "(let b = run_calls MAX_REQ_hf Map.empty (map (Pair ''u1'') [0, 1, 2, 3, 4, 5, 6, 7, 8, 9, 10,
              11, 12, 13, 14]);
        r = withinLimit MAX_REQ_hf 15 b ''u1''
    in \<not> fst r \<and> length (bucket_of (snd r) ''u1'') \<le> MAX_REQ_hf \<and>
       (\<forall>t\<in>set (bucket_of (snd r) ''u1''). 15 - t < WINDOW_MS) \<and>
       bucket_of (snd r) ''u1'' = filter (\<lambda>t. 15 - t < WINDOW_MS) (bucket_of b ''u1''))"
proof -
  let ?cs = "map (Pair ''u1'') [0, 1, 2, 3, 4, 5, 6, 7, 8, 9, 10, 11, 12, 13, 14 :: int]"
  have h0: "MAX_REQ_hf = MAX_REQ_rule \<or> MAX_REQ_hf = MAX_REQ_hf" by simp
  have rej: "\<not> fst (withinLimit MAX_REQ_hf 15 (run_calls MAX_REQ_hf Map.empty ?cs) ''u1'')"
    by code_simp
  show ?thesis
    using C9_bucket_invariant [of MAX_REQ_hf ?cs 15 "''u1''", THEN mp, OF h0] rej
    unfolding Let_def by blast
qed

section \<open>Properties of the rule-based responder\<close>

lemma show_nat_0: "show_nat 0 = ''0''"
  by code_simp

lemma show_nat_1: "show_nat (Suc 0) = ''1''"
  by code_simp

lemma summarizeClips_Nil: "summarizeClips js [] = ''No clips found in this playlist.''"
  by (simp add: summarizeClips_def)

lemma recommendClip_Nil: "recommendClip js [] prev = None"
  by (simp add: recommendClip_def)

lemma generateQuiz_Nil: "generateQuiz js [] num = [''No clips available for quiz.'']"
  by (simp add: generateQuiz_def)

lemma quiz_reply_Nil:
  "join [CHR 0x0A] (map_index (\<lambda>x i. show_nat (i + 1) @ ''. '' @ x) (generateQuiz js [] 5)) =
     ''1. No clips available for quiz.''"
  by (simp add: generateQuiz_Nil map_index_def show_nat_1)

lemma numbered_titles_Nil: "numbered_titles [] = ''''"
  by (simp add: numbered_titles_def map_index_def)

lemma plan_reply_Nil:
  "join [CHR 0x0A]
     [''Study plan for this playlist ('' @ show_nat (length (take 6 ([] :: clip list))) @ '' clips):'',
      ''Day 1: Watch '' @ numbered_titles (slice 0 2 (take 6 [])),
      ''Day 2: Watch '' @ or_lit (numbered_titles (slice 2 4 (take 6 []))) ''No clips'',
      ''Day 3: Watch '' @ or_lit (numbered_titles (slice 4 6 (take 6 []))) ''No clips'',
      ''Tip: Take notes and try a short recap after each video.''] =
   ''Study plan for this playlist (0 clips):'' @ [CHR 0x0A] @
   ''Day 1: Watch '' @ [CHR 0x0A] @
   ''Day 2: Watch No clips'' @ [CHR 0x0A] @
   ''Day 3: Watch No clips'' @ [CHR 0x0A] @
   ''Tip: Take notes and try a short recap after each video.''"
  by (simp add: slice_def numbered_titles_Nil or_lit_def show_nat_0)

text \<open>
  C2. For the empty clip list the four branches of the rule-based responder return fixed
  texts, each a \<open>Reply\<close> (never the \<open>Error\<close> of the handler's \<^verbatim>\<open>catch\<close>), each saying
  \<^verbatim>\<open>No clips\<close>: the summary and the recommendation are one sentence, the quiz is the header
  and one numbered line, the plan is the three-day template with \<^verbatim>\<open>(0 clips)\<close> in its
  header, an empty first day and \<^verbatim>\<open>No clips\<close> on the second and third day. The helper
  functions themselves return their constants on the empty list.
\<close>

theorem C2_no_clips_replies:
  "summarizeClips js [] = ''No clips found in this playlist.'' \<and>
   recommendClip js [] prev = None \<and>
   generateQuiz js [] num = [''No clips available for quiz.''] \<and>
   (detectIntent js message = Summarize \<longrightarrow>
      respond js [] message = Reply ''No clips found in this playlist.'') \<and>
   (detectIntent js message = Recommend \<longrightarrow>
      respond js [] message = Reply ''No clips found to recommend.'') \<and>
   (detectIntent js message = Quiz \<longrightarrow>
      respond js [] message = Reply (''Quiz:'' @ [CHR 0x0A] @ ''1. No clips available for quiz.'')) \<and>
   (detectIntent js message = Plan \<longrightarrow>
      respond js [] message =
        Reply (''Study plan for this playlist (0 clips):'' @ [CHR 0x0A] @
               ''Day 1: Watch '' @ [CHR 0x0A] @
               ''Day 2: Watch No clips'' @ [CHR 0x0A] @
               ''Day 3: Watch No clips'' @ [CHR 0x0A] @
               ''Tip: Take notes and try a short recap after each video.''))"
proof (intro conjI impI)
  show "summarizeClips js [] = ''No clips found in this playlist.''"
    by (rule summarizeClips_Nil)
  show "recommendClip js [] prev = None"
    by (rule recommendClip_Nil)
  show "generateQuiz js [] num = [''No clips available for quiz.'']"
    by (rule generateQuiz_Nil)
next
  assume "detectIntent js message = Summarize"
  then show "respond js [] message = Reply ''No clips found in this playlist.''"
    by (simp add: respond_def summarizeClips_Nil)
next
  assume "detectIntent js message = Recommend"
  then show "respond js [] message = Reply ''No clips found to recommend.''"
    by (simp add: respond_def recommendClip_Nil)
next
  assume "detectIntent js message = Quiz"
  then show "respond js [] message =
      Reply (''Quiz:'' @ [CHR 0x0A] @ ''1. No clips available for quiz.'')"
    by (simp only: respond_def intent.case quiz_reply_Nil)
next
  assume "detectIntent js message = Plan"
  then show "respond js [] message =
        Reply (''Study plan for this playlist (0 clips):'' @ [CHR 0x0A] @
               ''Day 1: Watch '' @ [CHR 0x0A] @
               ''Day 2: Watch No clips'' @ [CHR 0x0A] @
               ''Day 3: Watch No clips'' @ [CHR 0x0A] @
               ''Tip: Take notes and try a short recap after each video.'')"
    by (simp only: respond_def intent.case Let_def plan_reply_Nil)
qed

theorem C2_no_clips_replies_witness:
  "detectIntent ascii_platform ''Please summarize'' = Summarize \<and>
   respond ascii_platform [] ''Please summarize'' = Reply ''No clips found in this playlist.'' \<and>
   detectIntent ascii_platform ''recommend next'' = Recommend \<and>
   respond ascii_platform [] ''recommend next'' = Reply ''No clips found to recommend.'' \<and>
   detectIntent ascii_platform ''quiz me'' = Quiz \<and>
   respond ascii_platform [] ''quiz me'' = Reply (''Quiz:'' @ [CHR 0x0A] @ ''1. No clips available for quiz.'') \<and>
   detectIntent ascii_platform ''study plan'' = Plan \<and>
   respond ascii_platform [] ''study plan'' =
        Reply (''Study plan for this playlist (0 clips):'' @ [CHR 0x0A] @
               ''Day 1: Watch '' @ [CHR 0x0A] @
               ''Day 2: Watch No clips'' @ [CHR 0x0A] @
               ''Day 3: Watch No clips'' @ [CHR 0x0A] @
               ''Tip: Take notes and try a short recap after each video.'')"
proof -
  have s: "detectIntent ascii_platform ''Please summarize'' = Summarize" by code_simp
  have r: "detectIntent ascii_platform ''recommend next'' = Recommend" by code_simp
  have q: "detectIntent ascii_platform ''quiz me'' = Quiz" by code_simp
  have p: "detectIntent ascii_platform ''study plan'' = Plan" by code_simp
  from C2_no_clips_replies [of ascii_platform "[]" 5 "''Please summarize''"] s
  have 1: "respond ascii_platform [] ''Please summarize'' = Reply ''No clips found in this playlist.''"
    by blast
  from C2_no_clips_replies [of ascii_platform "[]" 5 "''recommend next''"] r
  have 2: "respond ascii_platform [] ''recommend next'' = Reply ''No clips found to recommend.''"
    by blast
  from C2_no_clips_replies [of ascii_platform "[]" 5 "''quiz me''"] q
  have 3: "respond ascii_platform [] ''quiz me'' =
      Reply (''Quiz:'' @ [CHR 0x0A] @ ''1. No clips available for quiz.'')"
    by blast
  from C2_no_clips_replies [of ascii_platform "[]" 5 "''study plan''"] p
  have 4: "respond ascii_platform [] ''study plan'' =
        Reply (''Study plan for this playlist (0 clips):'' @ [CHR 0x0A] @
               ''Day 1: Watch '' @ [CHR 0x0A] @
               ''Day 2: Watch No clips'' @ [CHR 0x0A] @
               ''Day 3: Watch No clips'' @ [CHR 0x0A] @
               ''Tip: Take notes and try a short recap after each video.'')"
    by blast
  from s r q p 1 2 3 4 show ?thesis by blast
qed

lemma recommendClip_no_previous: "recommendClip js (c # cs) [] = Some c"
  by (simp add: recommendClip_def)

text \<open>
  C10. With no previous titles \<open>recommendClip\<close> returns the first clip of a non-empty list.
  The callable passes \<open>[]\<close>, so its recommend branch always presents \<open>clips[0]\<close>, the most
  recent clip of the query: its title (or URL), description and link.
\<close>

theorem C10_recommend_first_clip:
  "clips \<noteq> [] \<longrightarrow>
     recommendClip js clips [] = Some (hd clips) \<and>
     (detectIntent js message = Recommend \<longrightarrow>
        respond js clips message =
          Reply (''Recommended: '' @
                 template (or_field (or_field (customTitle (hd clips)) (title (hd clips)))
                             (originalUrl (hd clips))) @
                 [CHR 0x0A, CHR 0x0A] @
                 shortText js (Some (or_str (description (hd clips)) ''No description'')) 300 @
                 [CHR 0x0A, CHR 0x0A] @ ''Link: '' @ or_str (originalUrl (hd clips)) ''N/A''))"
proof (cases clips)
  case Nil
  then show ?thesis by simp
next
  case (Cons c cs)
  then show ?thesis by (simp add: respond_def recommendClip_no_previous)
qed

theorem C10_recommend_first_clip_witness:
  "recommendClip ascii_platform [no_clip\<lparr>customTitle := Some ''Newest''\<rparr>, no_clip\<lparr>customTitle := Some ''Older''\<rparr>] [] =
     Some (no_clip\<lparr>customTitle := Some ''Newest''\<rparr>) \<and>
   respond ascii_platform [no_clip\<lparr>customTitle := Some ''Newest''\<rparr>, no_clip\<lparr>customTitle := Some ''Older''\<rparr>]
       ''recommend next'' =
     Reply (''Recommended: Newest'' @ [CHR 0x0A, CHR 0x0A] @ ''No description'' @
            [CHR 0x0A, CHR 0x0A] @ ''Link: N/A'')"
proof -
  let ?cs = "[no_clip\<lparr>customTitle := Some ''Newest''\<rparr>, no_clip\<lparr>customTitle := Some ''Older''\<rparr>]"
  have ne: "?cs \<noteq> []" by simp
  have r: "detectIntent ascii_platform ''recommend next'' = Recommend" by code_simp
  from C10_recommend_first_clip [of ?cs ascii_platform "''recommend next''"] ne r
  have "recommendClip ascii_platform ?cs [] = Some (hd ?cs)" and
    "respond ascii_platform ?cs ''recommend next'' =
          Reply (''Recommended: '' @
                 template (or_field (or_field (customTitle (hd ?cs)) (title (hd ?cs)))
                             (originalUrl (hd ?cs))) @
                 [CHR 0x0A, CHR 0x0A] @
                 shortText ascii_platform (Some (or_str (description (hd ?cs)) ''No description'')) 300 @
                 [CHR 0x0A, CHR 0x0A] @ ''Link: '' @ or_str (originalUrl (hd ?cs)) ''N/A'')"
    by blast+
  then show ?thesis
    by (simp add: no_clip_def template_def or_field_def truthy_def or_str_def shortText_def)
qed

subsection \<open>Search fallback\<close>

lemma insort_key_tagged:
  "insort_key (\<lambda>(c, s). g s) (x, f x) (map (\<lambda>c. (c, f c)) ys) =
     map (\<lambda>c. (c, f c)) (insort_key (\<lambda>c. g (f c)) x ys)"
  by (induction ys) simp_all

lemma sort_key_tagged:
  "sort_key (\<lambda>(c, s). g s) (map (\<lambda>c. (c, f c)) xs) =
     map (\<lambda>c. (c, f c)) (sort_key (\<lambda>c. g (f c)) xs)"
  by (induction xs) (simp_all add: insort_key_tagged)

lemma filter_tagged:
  "filter (\<lambda>(c, s). P s) (map (\<lambda>c. (c, f c)) xs) = map (\<lambda>c. (c, f c)) (filter (\<lambda>c. P (f c)) xs)"
  by (induction xs) simp_all

lemma searchClips_ranked:
  "searchClips js clips query limit =
     take limit (sort_key (\<lambda>c. - int (clip_score js query c))
                   (filter (\<lambda>c. 0 < clip_score js query c) clips))"
proof -
  let ?f = "\<lambda>c. scoreText js query (or_str (clip_title c) '''' @ '' '' @ or_str (description c) '''')"
  have "searchClips js clips query limit =
      map fst (take limit (sort_key (\<lambda>(c, s). - int s)
                 (filter (\<lambda>(c, s). 0 < s) (map (\<lambda>c. (c, ?f c)) clips))))"
    by (simp add: searchClips_def Let_def)
  also have "\<dots> = map fst (take limit (map (\<lambda>c. (c, ?f c))
                 (sort_key (\<lambda>c. - int (?f c)) (filter (\<lambda>c. 0 < ?f c) clips))))"
    by (simp only: filter_tagged sort_key_tagged)
  also have "\<dots> = take limit (sort_key (\<lambda>c. - int (?f c)) (filter (\<lambda>c. 0 < ?f c) clips))"
    by (simp add: take_map comp_def)
  finally show ?thesis by (simp add: clip_score_def search_text_def)
qed

lemma split_runs_Nil: "split_runs sep [] = [[]]"
  by simp

lemma clip_score_words:
  "clip_score js query c =
     length (filter (\<lambda>w. sublist w (toLowerCase js (search_text c))) (query_words js query))"
proof (cases "query = []")
  case True
  then show ?thesis
    by (simp add: clip_score_def scoreText_def query_words_def)
next
  case False
  moreover have "search_text c \<noteq> []" by (simp add: search_text_def)
  ultimately show ?thesis
    by (simp add: clip_score_def scoreText_def query_words_def normalize_def or_str_def
        str_includes_def Let_def)
qed

text \<open>
  C3 as the specification states it fails: the tags of a clip are not part of the scored
  text. A clip tagged \<^verbatim>\<open>cooking\<close> whose title and description do not contain the word is not
  found by the query \<^verbatim>\<open>cooking\<close>, while the search over title, description and tags
  returns it.
\<close>

theorem C3_search_ignores_tags:
  "searchClips ascii_platform
     [no_clip\<lparr>customTitle := Some ''Pasta'', description := Some ''dinner'', tags := [''cooking'']\<rparr>]
     ''cooking'' 5 = [] \<and>
   searchClips_spec ascii_platform
     [no_clip\<lparr>customTitle := Some ''Pasta'', description := Some ''dinner'', tags := [''cooking'']\<rparr>]
     ''cooking'' =
     [no_clip\<lparr>customTitle := Some ''Pasta'', description := Some ''dinner'', tags := [''cooking'']\<rparr>]"
  by code_simp

text \<open>
  C3, amended. The score of a clip is the number of whitespace-separated words of the
  lower-cased query (counted with repetition) that occur as substrings of the lower-cased
  text \<^verbatim>\<open>title + " " + description\<close>; the tags are not consulted. The search keeps the clips
  of positive score, ranks them by descending score with clips of equal score in the order
  of the clip list, and returns the first five of the ranking.
\<close>

theorem C3_search_by_title_and_description:
  "(let pos = filter (\<lambda>c. 0 < clip_score js query c) clips;
        ranked = sort_key (\<lambda>c. - int (clip_score js query c)) pos
    in searchClips js clips query 5 = take 5 ranked \<and>
       mset ranked = mset pos \<and>
       sorted (map (\<lambda>c. - int (clip_score js query c)) ranked) \<and>
       (\<forall>k. filter (\<lambda>c. clip_score js query c = k) ranked =
            filter (\<lambda>c. clip_score js query c = k) pos) \<and>
       (\<forall>c\<in>set (searchClips js clips query 5). c \<in> set clips \<and> 0 < clip_score js query c) \<and>
       length (searchClips js clips query 5) \<le> 5) \<and>
   clip_score js query c =
     length (filter (\<lambda>w. sublist w (toLowerCase js (search_text c))) (query_words js query)) \<and>
   search_text c = or_str (or_field (customTitle c) (title c)) '''' @ '' '' @
                   or_str (description c) ''''"
proof -
  let ?key = "\<lambda>c. - int (clip_score js query c)"
  let ?pos = "filter (\<lambda>c. 0 < clip_score js query c) clips"
  let ?ranked = "sort_key ?key ?pos"
  have r: "searchClips js clips query 5 = take 5 ?ranked"
    by (rule searchClips_ranked)
  have m: "mset ?ranked = mset ?pos" by simp
  have s: "sorted (map ?key ?ranked)" by (rule sorted_sort_key)
  have st: "\<forall>k. filter (\<lambda>c. clip_score js query c = k) ?ranked =
            filter (\<lambda>c. clip_score js query c = k) ?pos"
  proof
    fix k
    have "filter (\<lambda>c. ?key c = - int k) ?ranked = filter (\<lambda>c. ?key c = - int k) ?pos"
      by (rule sort_key_stable)
    then show "filter (\<lambda>c. clip_score js query c = k) ?ranked =
            filter (\<lambda>c. clip_score js query c = k) ?pos"
      by simp
  qed
  have mem: "\<forall>c\<in>set (searchClips js clips query 5). c \<in> set clips \<and> 0 < clip_score js query c"
  proof
    fix c assume "c \<in> set (searchClips js clips query 5)"
    then have "c \<in> set ?ranked" unfolding r by (rule in_set_takeD)
    then show "c \<in> set clips \<and> 0 < clip_score js query c" by simp
  qed
  have len: "length (searchClips js clips query 5) \<le> 5" unfolding r by simp
  have t: "search_text c = or_str (or_field (customTitle c) (title c)) '''' @ '' '' @
                   or_str (description c) ''''"
    by (simp add: search_text_def clip_title_def)
  show ?thesis
    unfolding Let_def using r m s st mem len clip_score_words [of js query c] t by blast
qed

theorem C3_search_by_title_and_description_witness:
  "searchClips ascii_platform
     [no_clip\<lparr>customTitle := Some ''Pasta basics'', description := Some ''dinner''\<rparr>,
      no_clip\<lparr>customTitle := Some ''Bread'', tags := [''pasta'']\<rparr>,
      no_clip\<lparr>title := Some ''Quick PASTA dinner''\<rparr>,
      no_clip\<lparr>customTitle := Some ''Dinner ideas''\<rparr>]
     ''pasta  Dinner'' 5 =
     [no_clip\<lparr>customTitle := Some ''Pasta basics'', description := Some ''dinner''\<rparr>,
      no_clip\<lparr>title := Some ''Quick PASTA dinner''\<rparr>,
      no_clip\<lparr>customTitle := Some ''Dinner ideas''\<rparr>]"
proof -
  let ?clips = "[no_clip\<lparr>customTitle := Some ''Pasta basics'', description := Some ''dinner''\<rparr>,
      no_clip\<lparr>customTitle := Some ''Bread'', tags := [''pasta'']\<rparr>,
      no_clip\<lparr>title := Some ''Quick PASTA dinner''\<rparr>,
      no_clip\<lparr>customTitle := Some ''Dinner ideas''\<rparr>]"
  let ?q = "''pasta  Dinner''"
  have "searchClips ascii_platform ?clips ?q 5 =
      take 5 (sort_key (\<lambda>c. - int (clip_score ascii_platform ?q c)) (filter (\<lambda>c. 0 < clip_score ascii_platform ?q c) ?clips))"
    using C3_search_by_title_and_description [of ascii_platform ?q ?clips] unfolding Let_def by blast
  also have "\<dots> = [no_clip\<lparr>customTitle := Some ''Pasta basics'', description := Some ''dinner''\<rparr>,
      no_clip\<lparr>title := Some ''Quick PASTA dinner''\<rparr>,
      no_clip\<lparr>customTitle := Some ''Dinner ideas''\<rparr>]"
    by code_simp
  finally show ?thesis .
qed

section \<open>Properties of the context builders\<close>

lemma fetchPlaylistClips_read_failure:
  "query_clips db uid pid limit = Inl e \<Longrightarrow> fetchPlaylistClips db uid (Some pid) limit = []"
  by (simp add: fetchPlaylistClips_def)

lemma buildPlaylistContext_read_failure:
  assumes "get_playlist db uid pid = Inl e \<or> query_clips db uid pid 12 = Inl e"
  shows "buildPlaylistContext db uid (Some pid) = ''''"
  using assms by (auto simp: buildPlaylistContext_def split: sum.splits)

text \<open>
  C6. A read of the document store that fails inside the context building is caught: the
  playlist context of the Hugging Face function is the empty string when the read of the
  playlist document or the query for its clips fails, and the clip-fetch helper of the
  rule-based function returns the empty list when its query fails. The requests go on:
  the prompt is built with an empty context, and the rule-based callable answers as it
  does for a store whose query returns no clips.
\<close>

theorem C6_read_failure_degrades:
  "((\<exists>e. get_playlist db uid pid = Inl e) \<or> (\<exists>e. query_clips db uid pid 12 = Inl e) \<longrightarrow>
      buildPlaylistContext db uid (Some pid) = '''' \<and>
      hfPrompt db uid (Some pid) message =
        systemNote @ [CHR 0x0A, CHR 0x0A] @ ''User: '' @ message @ [CHR 0x0A] @ ''Assistant:'') \<and>
   ((\<exists>e. query_clips db uid pid limit = Inl e) \<longrightarrow>
      fetchPlaylistClips db uid (Some pid) limit = []) \<and>
   ((\<exists>e. query_clips db (or_str auth_uid ''anonymous'') pid 25 = Inl e) \<longrightarrow>
      hfChat js db now b auth_uid msg (Some pid) =
      hfChat js (db\<lparr>query_clips := \<lambda>u p n. Inr []\<rparr>) now b auth_uid msg (Some pid))"
proof (intro conjI impI)
  assume "(\<exists>e. get_playlist db uid pid = Inl e) \<or> (\<exists>e. query_clips db uid pid 12 = Inl e)"
  then obtain e where "get_playlist db uid pid = Inl e \<or> query_clips db uid pid 12 = Inl e"
    by blast
  then show ctx: "buildPlaylistContext db uid (Some pid) = ''''"
    by (rule buildPlaylistContext_read_failure)
  show "hfPrompt db uid (Some pid) message =
        systemNote @ [CHR 0x0A, CHR 0x0A] @ ''User: '' @ message @ [CHR 0x0A] @ ''Assistant:''"
    by (simp add: hfPrompt_def ctx)
next
  assume "\<exists>e. query_clips db uid pid limit = Inl e"
  then show "fetchPlaylistClips db uid (Some pid) limit = []"
    by (auto simp: fetchPlaylistClips_read_failure)
next
  assume "\<exists>e. query_clips db (or_str auth_uid ''anonymous'') pid 25 = Inl e"
  then obtain e where "query_clips db (or_str auth_uid ''anonymous'') pid 25 = Inl e" ..
  then have L: "fetchPlaylistClips db (or_str auth_uid ''anonymous'') (Some pid) 25 = []"
    by (rule fetchPlaylistClips_read_failure)
  have R: "fetchPlaylistClips (db\<lparr>query_clips := \<lambda>u p n. Inr []\<rparr>)
        (or_str auth_uid ''anonymous'') (Some pid) 25 = []"
    by (simp add: fetchPlaylistClips_def)
  show "hfChat js db now b auth_uid msg (Some pid) =
      hfChat js (db\<lparr>query_clips := \<lambda>u p n. Inr []\<rparr>) now b auth_uid msg (Some pid)"
    by (simp add: hfChat_def Let_def split_beta L R)
qed

theorem C6_read_failure_degrades_witness:
  "buildPlaylistContext
      \<lparr>get_playlist = \<lambda>u p. Inl (ReadFailed ''unavailable''),
       query_clips = \<lambda>u p n. Inl (ReadFailed ''unavailable'')\<rparr> ''u1'' (Some ''p1'') = '''' \<and>
   fetchPlaylistClips
      \<lparr>get_playlist = \<lambda>u p. Inl (ReadFailed ''unavailable''),
       query_clips = \<lambda>u p n. Inl (ReadFailed ''unavailable'')\<rparr> ''u1'' (Some ''p1'') 25 = [] \<and>
   fst (hfChat ascii_platform
      \<lparr>get_playlist = \<lambda>u p. Inl (ReadFailed ''unavailable''),
       query_clips = \<lambda>u p n. Inl (ReadFailed ''unavailable'')\<rparr> 0 Map.empty (Some ''u1'')
      (Some ''recommend next'') (Some ''p1'')) = Reply ''No clips found to recommend.''"
proof -
  let ?db = "\<lparr>get_playlist = \<lambda>u p. Inl (ReadFailed ''unavailable''),
       query_clips = \<lambda>u p n. Inl (ReadFailed ''unavailable'')\<rparr> :: store"
  have g: "\<exists>e. get_playlist ?db ''u1'' ''p1'' = Inl e" by simp
  have q: "\<exists>e. query_clips ?db ''u1'' ''p1'' 25 = Inl e" by simp
  have q': "\<exists>e. query_clips ?db (or_str (Some ''u1'') ''anonymous'') ''p1'' 25 = Inl e" by simp
  note inst = C6_read_failure_degrades
    [of ?db "''u1''" "''p1''" "''recommend next''" 25 "Some ''u1''" ascii_platform 0 Map.empty
        "Some ''recommend next''"]
  from inst g have 1: "buildPlaylistContext ?db ''u1'' (Some ''p1'') = ''''" by blast
  from inst q have 2: "fetchPlaylistClips ?db ''u1'' (Some ''p1'') 25 = []" by blast
  from inst q' have eq: "hfChat ascii_platform ?db 0 Map.empty (Some ''u1'') (Some ''recommend next'') (Some ''p1'') =
      hfChat ascii_platform (?db\<lparr>query_clips := \<lambda>u p n. Inr []\<rparr>) 0 Map.empty (Some ''u1'')
        (Some ''recommend next'') (Some ''p1'')"
    by blast
  have "fst (hfChat ascii_platform (?db\<lparr>query_clips := \<lambda>u p n. Inr []\<rparr>) 0 Map.empty (Some ''u1'')
        (Some ''recommend next'') (Some ''p1'')) = Reply ''No clips found to recommend.''"
    by code_simp
  then have 3: "fst (hfChat ascii_platform ?db 0 Map.empty (Some ''u1'') (Some ''recommend next'') (Some ''p1'')) =
      Reply ''No clips found to recommend.''"
    by (simp only: eq)
  from 1 2 3 show ?thesis by blast
qed

section \<open>Properties of the tag finalisation\<close>

lemma dropWhile_rev_dropWhile:
  "dropWhile P (rev (dropWhile P (rev (dropWhile P s)))) = rev (dropWhile P (rev (dropWhile P s)))"
proof -
  let ?a = "dropWhile P s"
  let ?b = "dropWhile P (rev ?a)"
  show ?thesis
  proof (cases "?b = []")
    case True
    show ?thesis by (simp only: True rev.simps dropWhile.simps)
  next
    case False
    obtain ts where ts: "rev ?a = ts @ ?b"
      by (metis takeWhile_dropWhile_id)
    then have a: "?a = rev ?b @ rev ts" by (metis rev_append rev_rev_ident)
    from False have "rev ?b \<noteq> []" by simp
    then have "hd (rev ?b) = hd ?a" using a by (metis hd_append2)
    moreover have "?a \<noteq> []"
    proof
      assume "?a = []"
      then have "?b = []" by (simp only: rev.simps dropWhile.simps)
      with False show False by simp
    qed
    then have "\<not> P (hd ?a)" by (rule hd_dropWhile)
    ultimately have "\<not> P (hd (rev ?b))" by simp
    with \<open>rev ?b \<noteq> []\<close> show ?thesis by (cases "rev ?b") simp_all
  qed
qed

lemma trim_idem: "trim js (trim js s) = trim js s"
  by (simp add: trim_def dropWhile_rev_dropWhile)

text \<open>
  The two facts about the platform's lower-casing that the finalisation relies on:
  lower-casing twice is lower-casing once, and lower-casing a trimmed string gives a
  trimmed string (no letter becomes white space).
\<close>

lemma normalizeTag_idem:
  assumes "\<forall>s. toLowerCase js (toLowerCase js s) = toLowerCase js s"
    and "\<forall>s. trim js (toLowerCase js (trim js s)) = toLowerCase js (trim js s)"
  shows "normalizeTag js (normalizeTag js t) = normalizeTag js t"
  using assms by (simp add: normalizeTag_def)

lemma normalizeTag_lower:
  assumes "\<forall>s. toLowerCase js (toLowerCase js s) = toLowerCase js s"
  shows "toLowerCase js (normalizeTag js t) = normalizeTag js t"
  using assms by (simp add: normalizeTag_def)

lemma normalizeTag_trimmed:
  assumes "\<forall>s. trim js (toLowerCase js (trim js s)) = toLowerCase js (trim js s)"
  shows "trim js (normalizeTag js t) = normalizeTag js t"
  using assms by (simp add: normalizeTag_def)

lemma foldl_Set_add_set: "set (foldl Set_add s xs) = set s \<union> set xs"
  by (induction xs arbitrary: s) (auto simp: Set_add_def)

lemma foldl_Set_add_distinct: "distinct s \<Longrightarrow> distinct (foldl Set_add s xs)"
  by (induction xs arbitrary: s) (auto simp: Set_add_def)

lemma foldl_Set_add_fresh: "distinct (s @ xs) \<Longrightarrow> foldl Set_add s xs = s @ xs"
proof (induction xs arbitrary: s)
  case Nil
  then show ?case by simp
next
  case (Cons x xs)
  then have "x \<notin> set s" by auto
  then have "Set_add s x = s @ [x]" by (simp add: Set_add_def)
  moreover have "distinct ((s @ [x]) @ xs)" using Cons.prems by simp
  ultimately show ?case using Cons.IH [of "s @ [x]"] by simp
qed

lemma Set_from_set: "set (Set_from xs) = set xs"
  by (simp add: Set_from_def foldl_Set_add_set)

lemma Set_from_distinct: "distinct (Set_from xs)"
  by (simp add: Set_from_def foldl_Set_add_distinct)

lemma Set_from_fresh: "distinct xs \<Longrightarrow> Set_from xs = xs"
  using foldl_Set_add_fresh [of "[]" xs] by (simp add: Set_from_def)

lemma finalize_tags_distinct: "distinct (finalize_tags js raw)"
  by (simp add: finalize_tags_def Set_from_distinct distinct_take)

lemma finalize_tags_length: "length (finalize_tags js raw) \<le> 3"
  by (simp add: finalize_tags_def)

lemma finalize_tags_elem:
  assumes "t \<in> set (finalize_tags js raw)"
  shows "t \<noteq> [] \<and> (\<exists>r\<in>set raw. t = normalizeTag js r)"
proof -
  from assms have "t \<in> set (filter (\<lambda>t. t \<noteq> []) (Set_from (map (normalizeTag js) raw)))"
    unfolding finalize_tags_def by (rule in_set_takeD)
  then show ?thesis by (auto simp: Set_from_set)
qed

lemma finalize_tags_fixed:
  assumes "distinct out" and "length out \<le> 3"
    and "\<forall>t\<in>set out. t \<noteq> [] \<and> normalizeTag js t = t"
  shows "finalize_tags js out = out"
proof -
  have "map (normalizeTag js) out = out" using assms(3) by (simp add: map_idI)
  moreover have "Set_from out = out" using assms(1) by (rule Set_from_fresh)
  moreover have "filter (\<lambda>t. t \<noteq> []) out = out" using assms(3) by (simp add: filter_id_conv)
  ultimately show ?thesis using assms(2) by (simp add: finalize_tags_def)
qed

lemma finalize_tags_idem:
  assumes "\<forall>s. toLowerCase js (toLowerCase js s) = toLowerCase js s"
    and "\<forall>s. trim js (toLowerCase js (trim js s)) = toLowerCase js (trim js s)"
  shows "finalize_tags js (finalize_tags js raw) = finalize_tags js raw"
proof (rule finalize_tags_fixed)
  show "distinct (finalize_tags js raw)" by (rule finalize_tags_distinct)
  show "length (finalize_tags js raw) \<le> 3" by (rule finalize_tags_length)
  show "\<forall>t\<in>set (finalize_tags js raw). t \<noteq> [] \<and> normalizeTag js t = t"
  proof
    fix t assume "t \<in> set (finalize_tags js raw)"
    then obtain r where "t \<noteq> []" and "t = normalizeTag js r"
      using finalize_tags_elem by blast
    then show "t \<noteq> [] \<and> normalizeTag js t = t"
      by (simp add: normalizeTag_idem [OF assms])
  qed
qed

text \<open>The ASCII platform has the two properties.\<close>

lemma of_char_lower_char:
  "(of_char (lower_char c) :: int) =
     (if 65 \<le> (of_char c :: int) \<and> (of_char c :: int) \<le> 90 then of_char c + 32 else of_char c)"
  by (simp add: lower_char_def Let_def)

lemma lower_char_idem: "lower_char (lower_char c) = lower_char c"
proof (cases "65 \<le> (of_char c :: int) \<and> (of_char c :: int) \<le> 90")
  case True
  then have "(of_char (lower_char c) :: int) = of_char c + 32"
    by (simp add: of_char_lower_char)
  with True have n: "(65 \<le> (of_char (lower_char c) :: int) \<and> (of_char (lower_char c) :: int) \<le> 90) = False"
    by simp
  show ?thesis
    unfolding lower_char_def [of "lower_char c"] Let_def by (simp only: n if_False)
next
  case False
  then show ?thesis by (auto simp add: lower_char_def Let_def)
qed

lemma ascii_space_lower_char: "ascii_space (lower_char c) = ascii_space c"
  by (auto simp: ascii_space_def of_char_lower_char Let_def)

lemma dropWhile_space_lower:
  "dropWhile ascii_space (map lower_char s) = map lower_char (dropWhile ascii_space s)"
  by (induction s) (simp_all add: ascii_space_lower_char)

lemma ascii_lower_idem:
  "toLowerCase ascii_platform (toLowerCase ascii_platform s) = toLowerCase ascii_platform s"
  by (simp add: ascii_platform_def lower_char_idem)

lemma ascii_trim_lower:
  "trim ascii_platform (toLowerCase ascii_platform s) =
     toLowerCase ascii_platform (trim ascii_platform s)"
  by (simp add: trim_def ascii_platform_def dropWhile_space_lower rev_map)

lemma ascii_lower_trimmed:
  "trim ascii_platform (toLowerCase ascii_platform (trim ascii_platform s)) =
     toLowerCase ascii_platform (trim ascii_platform s)"
  by (simp add: ascii_trim_lower trim_idem)

text \<open>
  C4. The finalisation of a tag list (trim and lower-case each tag, collect into a
  \<^verbatim>\<open>Set\<close>, drop the empty string, keep the first three), for every lower-casing and every
  white space of the platform: the result has no duplicates (tags equal after
  normalisation collapse to their first occurrence), has at most three elements, none of
  them empty, and is the first three of the surviving tags, exactly three when at least
  three survive. When lower-casing is idempotent and keeps a trimmed string trimmed, as
  JavaScript's does, the finalisation is idempotent and every tag of the result is
  lower-case and trimmed.
\<close>

theorem C4_finalize_tags:
  "distinct (finalize_tags js raw) \<and>
   length (finalize_tags js raw) \<le> 3 \<and>
   (\<forall>t\<in>set (finalize_tags js raw). t \<noteq> []) \<and>
   (let survivors = filter (\<lambda>t. t \<noteq> []) (Set_from (map (normalizeTag js) raw))
    in finalize_tags js raw = take 3 survivors \<and>
       distinct survivors \<and>
       set survivors = (normalizeTag js) ` set raw - {[]} \<and>
       (3 \<le> length survivors \<longrightarrow> length (finalize_tags js raw) = 3)) \<and>
   ((\<forall>s. toLowerCase js (toLowerCase js s) = toLowerCase js s) \<and>
    (\<forall>s. trim js (toLowerCase js (trim js s)) = toLowerCase js (trim js s)) \<longrightarrow>
      finalize_tags js (finalize_tags js raw) = finalize_tags js raw \<and>
      (\<forall>t\<in>set (finalize_tags js raw). toLowerCase js t = t \<and> trim js t = t))"
proof -
  let ?s = "filter (\<lambda>t. t \<noteq> []) (Set_from (map (normalizeTag js) raw))"
  have 2: "distinct (finalize_tags js raw)" by (rule finalize_tags_distinct)
  have 3: "length (finalize_tags js raw) \<le> 3" by (rule finalize_tags_length)
  have 4: "\<forall>t\<in>set (finalize_tags js raw). t \<noteq> []"
    using finalize_tags_elem by blast
  have 5: "finalize_tags js raw = take 3 ?s" by (simp add: finalize_tags_def)
  have 6: "distinct ?s" by (simp add: Set_from_distinct)
  have 7: "set ?s = (normalizeTag js) ` set raw - {[]}" by (auto simp: Set_from_set)
  have 8: "3 \<le> length ?s \<longrightarrow> length (finalize_tags js raw) = 3" by (simp add: 5)
  have 9: "finalize_tags js (finalize_tags js raw) = finalize_tags js raw \<and>
      (\<forall>t\<in>set (finalize_tags js raw). toLowerCase js t = t \<and> trim js t = t)"
    if low: "\<forall>s. toLowerCase js (toLowerCase js s) = toLowerCase js s"
      and trimmed: "\<forall>s. trim js (toLowerCase js (trim js s)) = toLowerCase js (trim js s)"
  proof
    show "finalize_tags js (finalize_tags js raw) = finalize_tags js raw"
      using low trimmed by (rule finalize_tags_idem)
    show "\<forall>t\<in>set (finalize_tags js raw). toLowerCase js t = t \<and> trim js t = t"
    proof
      fix t assume "t \<in> set (finalize_tags js raw)"
      then obtain r where "t = normalizeTag js r"
        using finalize_tags_elem by blast
      then show "toLowerCase js t = t \<and> trim js t = t"
        by (simp add: normalizeTag_lower [OF low] normalizeTag_trimmed [OF trimmed])
    qed
  qed
  show ?thesis unfolding Let_def using 2 3 4 5 6 7 8 9 by blast
qed

theorem C4_finalize_tags_witness:
  "finalize_tags ascii_platform ['' Music '', ''music'', '''', ''  '', ''Rock'', ''JAZZ'', ''pop''] =
     [''music'', ''rock'', ''jazz''] \<and>
   finalize_tags ascii_platform [''music'', ''rock'', ''jazz''] = [''music'', ''rock'', ''jazz''] \<and>
   length (finalize_tags ascii_platform
             ['' Music '', ''music'', '''', ''  '', ''Rock'', ''JAZZ'', ''pop'']) = 3 \<and>
   toLowerCase ascii_platform ''rock'' = ''rock'' \<and> trim ascii_platform ''rock'' = ''rock''"
proof -
  let ?raw = "['' Music '', ''music'', '''', ''  '', ''Rock'', ''JAZZ'', ''pop'']"
  have v: "finalize_tags ascii_platform ?raw = [''music'', ''rock'', ''jazz'']" by code_simp
  have s: "3 \<le> length (filter (\<lambda>t. t \<noteq> []) (Set_from (map (normalizeTag ascii_platform) ?raw)))"
    by code_simp
  have low: "\<forall>s. toLowerCase ascii_platform (toLowerCase ascii_platform s) =
      toLowerCase ascii_platform s"
    by (simp add: ascii_lower_idem)
  have trimmed: "\<forall>s. trim ascii_platform (toLowerCase ascii_platform (trim ascii_platform s)) =
      toLowerCase ascii_platform (trim ascii_platform s)"
    by (simp add: ascii_lower_trimmed)
  note inst = C4_finalize_tags [of ascii_platform ?raw, unfolded Let_def]
  from inst low trimmed
  have idem: "finalize_tags ascii_platform (finalize_tags ascii_platform ?raw) =
      finalize_tags ascii_platform ?raw"
    and norm: "\<forall>t\<in>set (finalize_tags ascii_platform ?raw).
      toLowerCase ascii_platform t = t \<and> trim ascii_platform t = t"
    by blast+
  from idem have i: "finalize_tags ascii_platform [''music'', ''rock'', ''jazz''] =
      [''music'', ''rock'', ''jazz'']"
    by (simp only: v)
  from norm have "toLowerCase ascii_platform ''rock'' = ''rock'' \<and>
      trim ascii_platform ''rock'' = ''rock''"
    by (simp only: v) simp
  moreover from inst s have "length (finalize_tags ascii_platform ?raw) = 3" by blast
  ultimately show ?thesis using v i by blast
qed

section \<open>Properties of the profile context\<close>

lemma truncation_marker_length: "length truncation_marker = 13"
  by (simp add: truncation_marker_def)

lemma profile_text_user_length:
  "length (or_str (or_field (user_displayName u) (user_email u)) (user_uid u)) \<le>
     length (profile_text js toLocaleString u clips playlists)"
  by (simp add: profile_text_def Let_def)

lemma buildProfileContext_truncated:
  assumes "18000 < length (profile_text js toLocaleString u clips playlists)"
  shows "buildProfileContext js toLocaleString (Some u) clips playlists =
           take 17900 (profile_text js toLocaleString u clips playlists) @ truncation_marker"
    and "length (buildProfileContext js toLocaleString (Some u) clips playlists) = 17913"
  using assms by (simp_all add: buildProfileContext_def Let_def truncation_marker_length)

lemma buildProfileContext_short:
  assumes "length (profile_text js toLocaleString u clips playlists) \<le> 18000"
  shows "buildProfileContext js toLocaleString (Some u) clips playlists =
           profile_text js toLocaleString u clips playlists"
  using assms by (simp add: buildProfileContext_def Let_def)

lemma buildProfileContext_length:
  "length (buildProfileContext js toLocaleString usr clips playlists) \<le> 18000"
proof (cases usr)
  case None
  then show ?thesis by (simp add: buildProfileContext_def)
next
  case (Some u)
  show ?thesis
  proof (cases "18000 < length (profile_text js toLocaleString u clips playlists)")
    case True
    then show ?thesis unfolding Some by (simp add: buildProfileContext_truncated(2))
  next
    case False
    then show ?thesis unfolding Some by (simp add: buildProfileContext_short)
  qed
qed

text \<open>
  C5. For every user, clip list and playlist list (and every rendering of dates) the
  profile context is at most 18000 characters long. Without a user it is the fixed
  sentence. When the assembled text is longer than 18000 characters the result is its
  first 17900 characters followed by the marker \<^verbatim>\<open>"\n\<dots>(truncated)"\<close>, 17913 characters in
  all, so a truncated context ends with the marker; a text of at most 18000 characters is
  returned unchanged.
\<close>

theorem C5_profile_context_cap:
  "length (buildProfileContext js toLocaleString usr clips playlists) \<le> 18000 \<and>
   (usr = None \<longrightarrow>
      buildProfileContext js toLocaleString usr clips playlists = ''No user logged in.'') \<and>
   (\<forall>u. usr = Some u \<and> 18000 < length (profile_text js toLocaleString u clips playlists) \<longrightarrow>
      buildProfileContext js toLocaleString usr clips playlists =
        take 17900 (profile_text js toLocaleString u clips playlists) @ truncation_marker \<and>
      suffix truncation_marker (buildProfileContext js toLocaleString usr clips playlists) \<and>
      length (buildProfileContext js toLocaleString usr clips playlists) = 17913) \<and>
   (\<forall>u. usr = Some u \<and> length (profile_text js toLocaleString u clips playlists) \<le> 18000 \<longrightarrow>
      buildProfileContext js toLocaleString usr clips playlists =
        profile_text js toLocaleString u clips playlists)"
proof (intro conjI allI impI)
  show "length (buildProfileContext js toLocaleString usr clips playlists) \<le> 18000"
    by (rule buildProfileContext_length)
next
  assume "usr = None"
  then show "buildProfileContext js toLocaleString usr clips playlists = ''No user logged in.''"
    by (simp add: buildProfileContext_def)
next
  fix u
  assume a: "usr = Some u \<and> 18000 < length (profile_text js toLocaleString u clips playlists)"
  then have long: "18000 < length (profile_text js toLocaleString u clips playlists)" ..
  from a have usr: "usr = Some u" ..
  show eq: "buildProfileContext js toLocaleString usr clips playlists =
        take 17900 (profile_text js toLocaleString u clips playlists) @ truncation_marker"
    unfolding usr using long by (rule buildProfileContext_truncated(1))
  show "suffix truncation_marker (buildProfileContext js toLocaleString usr clips playlists)"
    unfolding eq by (rule suffix_appendI) simp
  show "length (buildProfileContext js toLocaleString usr clips playlists) = 17913"
    unfolding usr using long by (rule buildProfileContext_truncated(2))
next
  fix u
  assume a: "usr = Some u \<and> length (profile_text js toLocaleString u clips playlists) \<le> 18000"
  then have "length (profile_text js toLocaleString u clips playlists) \<le> 18000" ..
  then have "buildProfileContext js toLocaleString (Some u) clips playlists =
        profile_text js toLocaleString u clips playlists"
    by (rule buildProfileContext_short)
  with a show "buildProfileContext js toLocaleString usr clips playlists =
        profile_text js toLocaleString u clips playlists"
    by simp
qed

theorem C5_profile_context_cap_witness:
  "18000 < length (profile_text ascii_platform (\<lambda>t. ''date'')
       \<lparr>user_displayName = None, user_email = None, user_uid = replicate 18001 (CHR ''u'')\<rparr> [] []) \<and>
   suffix truncation_marker (buildProfileContext ascii_platform (\<lambda>t. ''date'')
       (Some \<lparr>user_displayName = None, user_email = None, user_uid = replicate 18001 (CHR ''u'')\<rparr>)
       [] []) \<and>
   length (buildProfileContext ascii_platform (\<lambda>t. ''date'')
       (Some \<lparr>user_displayName = None, user_email = None, user_uid = replicate 18001 (CHR ''u'')\<rparr>)
       [] []) = 17913 \<and>
   buildProfileContext ascii_platform (\<lambda>t. ''date'')
       (Some \<lparr>user_displayName = Some ''Ada'', user_email = None, user_uid = ''u1''\<rparr>) [] [] =
     ''User: Ada'' @ [CHR 0x0A] @ ''TotalClips: 0; Playlists: 0;'' @ [CHR 0x0A] @
     ''BySite: none'' @ [CHR 0x0A] @ ''TopTags: none'' @ [CHR 0x0A] @
     ''Playlists: none'' @ [CHR 0x0A] @ ''SampleClips:'' @ [CHR 0x0A]"
proof -
  let ?loc = "\<lambda>t::int. ''date''"
  let ?u = "\<lparr>user_displayName = None, user_email = None, user_uid = replicate 18001 (CHR ''u'')\<rparr>"
  let ?v = "\<lparr>user_displayName = Some ''Ada'', user_email = None, user_uid = ''u1''\<rparr>"
  have "length (or_str (or_field (user_displayName ?u) (user_email ?u)) (user_uid ?u)) = 18001"
    by (simp add: or_field_def or_str_def truthy_def)
  with profile_text_user_length [of ?u ascii_platform ?loc "[]" "[]"]
  have long: "18000 < length (profile_text ascii_platform ?loc ?u [] [])" by simp
  have pv: "profile_text ascii_platform ?loc ?v [] [] =
     ''User: Ada'' @ [CHR 0x0A] @ ''TotalClips: 0; Playlists: 0;'' @ [CHR 0x0A] @
     ''BySite: none'' @ [CHR 0x0A] @ ''TopTags: none'' @ [CHR 0x0A] @
     ''Playlists: none'' @ [CHR 0x0A] @ ''SampleClips:'' @ [CHR 0x0A]"
    by code_simp
  from pv have short: "length (profile_text ascii_platform ?loc ?v [] []) \<le> 18000" by simp
  from C5_profile_context_cap [of ascii_platform ?loc "Some ?u" "[]" "[]"] long
  have 1: "suffix truncation_marker (buildProfileContext ascii_platform ?loc (Some ?u) [] [])"
    and 2: "length (buildProfileContext ascii_platform ?loc (Some ?u) [] []) = 17913"
    by blast+
  from C5_profile_context_cap [of ascii_platform ?loc "Some ?v" "[]" "[]"] short
  have "buildProfileContext ascii_platform ?loc (Some ?v) [] [] = profile_text ascii_platform ?loc ?v [] []"
    by blast
  from this pv have 3: "buildProfileContext ascii_platform ?loc (Some ?v) [] [] =
     ''User: Ada'' @ [CHR 0x0A] @ ''TotalClips: 0; Playlists: 0;'' @ [CHR 0x0A] @
     ''BySite: none'' @ [CHR 0x0A] @ ''TopTags: none'' @ [CHR 0x0A] @
     ''Playlists: none'' @ [CHR 0x0A] @ ''SampleClips:'' @ [CHR 0x0A]"
    by (rule trans)
  from long 1 2 3 show ?thesis by blast
qed

section \<open>Properties of the browser-side responder\<close>

lemma recommend_candidate_shortest_unwatched:
  assumes "duration a = NoDuration" and "duration b = Duration d"
    and "\<not> watched b"
  shows "recommend_candidate a [b] = b"
  using assms by (simp add: recommend_candidate_def is_number_def Let_def)

lemma recommend_candidate_no_numeric:
  assumes "filter (\<lambda>c. is_number (duration c)) (c0 # rest) = []"
  shows "recommend_candidate c0 rest =
         (case find (\<lambda>c. \<not> watched c) (c0 # rest) of Some c \<Rightarrow> c | None \<Rightarrow> c0)"
  unfolding recommend_candidate_def Let_def assms by simp

lemma is_number_not_null: "is_number d \<Longrightarrow> d \<noteq> NoDuration"
  by (cases d) (simp_all add: is_number_def)

lemma recommend_candidate_numeric:
  assumes "sort_key duration_value (filter (\<lambda>c. is_number (duration c)) (c0 # rest)) = m # ms"
  shows "recommend_candidate c0 rest =
         (if watched m
          then (case find (\<lambda>c. \<not> watched c) (c0 # rest) of Some c \<Rightarrow> c | None \<Rightarrow> c0)
          else m)"
proof -
  have "m \<in> set (sort_key duration_value (filter (\<lambda>c. is_number (duration c)) (c0 # rest)))"
    by (simp only: assms list.set_intros)
  then have "m \<in> set (filter (\<lambda>c. is_number (duration c)) (c0 # rest))"
    by (simp only: set_sort)
  then have "m \<in> set (c0 # rest)" and "is_number (duration m)"
    unfolding set_filter by blast+
  then have "\<exists>c\<in>set (c0 # rest). duration c \<noteq> NoDuration"
    using is_number_not_null by blast
  then have "\<not> list_all (\<lambda>c. duration c = NoDuration) (c0 # rest)"
    by (simp only: list_all_iff) blast
  then show ?thesis
    unfolding recommend_candidate_def Let_def by (simp only: assms list.case if_True) simp
qed

lemma least_of_sort_key:
  assumes "sort_key f xs = m # ms"
  shows "m \<in> set xs \<and> (\<forall>x\<in>set xs. f m \<le> f x)"
proof -
  have "sorted (map f (m # ms))" using sorted_sort_key [of f xs] by (simp only: assms)
  moreover have "set (m # ms) = set xs" using set_sort [of f xs] by (simp only: assms)
  ultimately show ?thesis by auto
qed

lemma recommend_next_route:
  "''recommend next'' \<noteq> ''help''" "''recommend next'' \<noteq> ''what can you do''"
  "\<not> str_includes ''recommend next'' ''playlist''"
  "\<not> str_includes ''recommend next'' ''summarize''"
  "\<not> str_includes ''recommend next'' ''what's in''"
  "\<not> str_includes ''recommend next'' ''what is in''"
  "str_includes ''recommend next'' ''recommend''"
  by code_simp+

lemma handleMessageRaw_recommend_next:
  assumes "toLowerCase js (trim js text) = ''recommend next''"
    and "truthy uid" and "truthy pid"
    and "find_playlist db (the uid) (the pid) = Inr pl"
    and "playlist_clips db (the uid) (the pid) = Inr (c0 # rest)"
  shows "handleMessageRaw js db uid pid text =
           Inr (''Recommended next: '' @ title_or_url (recommend_candidate c0 rest) 60 @
                [CHR 0x0A] @ ''Open: '' @
                or_str (or_field (watchUrl (recommend_candidate c0 rest))
                          (originalUrl (recommend_candidate c0 rest))) ''No link available'')"
proof -
  have ctx: "fetchPlaylistContext db uid pid = (pl, c0 # rest)"
    using assms(2-5) by (simp add: fetchPlaylistContext_def)
  show ?thesis
    unfolding handleMessageRaw_def Let_def assms(1)
    by (simp only: recommend_next_route assms(2,3) ctx simp_thms if_True if_False
        not_True_eq_False not_False_eq_True prod.case list.case)
qed

text \<open>
  C7 as the specification states it fails on the code. For the clips as written, with a
  \<^verbatim>\<open>title\<close> field only, the reply to \<^verbatim>\<open>recommend next\<close> names no clip: the component prints
  \<^verbatim>\<open>customTitle\<close> (or the shortened \<^verbatim>\<open>originalUrl\<close>), never \<^verbatim>\<open>title\<close>. And the rule is not "the
  shortest unwatched clip among the clips with a numeric duration": with A (no duration,
  unwatched), B (duration 5, watched) and C (duration 7, unwatched) that rule gives C,
  while the code looks at the shortest clip only, finds it watched and recommends A.
\<close>

theorem C7_reply_names_no_clip_and_rule_differs:
  "handleMessageRaw ascii_platform
     \<lparr>find_playlist = \<lambda>u p. Inr (Some \<lparr>playlist_id = Some ''p1'', name = Some ''Mix''\<rparr>),
      playlist_clips = \<lambda>u p. Inr
        [no_clip\<lparr>title := Some ''A'', duration := NoDuration, watched := False\<rparr>,
         no_clip\<lparr>title := Some ''B'', duration := Duration 5, watched := False\<rparr>],
      library_clips = \<lambda>u. Inr []\<rparr>
     (Some ''u1'') (Some ''p1'') ''recommend next'' =
     Inr (''Recommended next: '' @ [CHR 0x0A] @ ''Open: No link available'') \<and>
   recommend_candidate
     (no_clip\<lparr>customTitle := Some ''A'', duration := NoDuration, watched := False\<rparr>)
     [no_clip\<lparr>customTitle := Some ''B'', duration := Duration 5, watched := True\<rparr>,
      no_clip\<lparr>customTitle := Some ''C'', duration := Duration 7, watched := False\<rparr>] =
     no_clip\<lparr>customTitle := Some ''A'', duration := NoDuration, watched := False\<rparr> \<and>
   recommend_candidate_spec
     (no_clip\<lparr>customTitle := Some ''A'', duration := NoDuration, watched := False\<rparr>)
     [no_clip\<lparr>customTitle := Some ''B'', duration := Duration 5, watched := True\<rparr>,
      no_clip\<lparr>customTitle := Some ''C'', duration := Duration 7, watched := False\<rparr>] =
     no_clip\<lparr>customTitle := Some ''C'', duration := Duration 7, watched := False\<rparr>"
  by code_simp

text \<open>
  C7, amended. The recommend branch chooses, from the non-empty clip list, the clip of
  least numeric duration (the first such in list order) when that clip is unwatched;
  when it is watched, or when no clip has a numeric duration, it chooses the first
  unwatched clip, or the first clip when all are watched. For a signed-in user with a
  selected playlist the reply to a message that lower-cases and trims to
  \<^verbatim>\<open>recommend next\<close> names that clip by its \<^verbatim>\<open>customTitle\<close> (else by its shortened
  \<^verbatim>\<open>originalUrl\<close>) and gives its link. So with the clips
  \<^verbatim>\<open>[{customTitle:"A",duration:null,watched:false},{customTitle:"B",duration:5,watched:false}]\<close>
  the reply is \<^verbatim>\<open>Recommended next: B\<close>.
\<close>

theorem C7_recommend_rule_and_reply:
  "(let clips = c0 # rest;
        numeric = filter (\<lambda>c. is_number (duration c)) clips;
        first_choice = (case find (\<lambda>c. \<not> watched c) clips of Some c \<Rightarrow> c | None \<Rightarrow> c0)
    in (numeric = [] \<longrightarrow> recommend_candidate c0 rest = first_choice) \<and>
       (\<forall>m ms. sort_key duration_value numeric = m # ms \<longrightarrow>
          m \<in> set clips \<and> is_number (duration m) \<and>
          (\<forall>c\<in>set clips. is_number (duration c) \<longrightarrow> duration_value m \<le> duration_value c) \<and>
          recommend_candidate c0 rest = (if watched m then first_choice else m))) \<and>
   (duration a = NoDuration \<and> duration b = Duration d \<and> \<not> watched b \<longrightarrow>
      recommend_candidate a [b] = b) \<and>
   (toLowerCase js (trim js text) = ''recommend next'' \<and> truthy uid \<and> truthy pid \<and>
    find_playlist db (the uid) (the pid) = Inr pl \<and>
    playlist_clips db (the uid) (the pid) = Inr (c0 # rest) \<longrightarrow>
      handleMessageRaw js db uid pid text =
        Inr (''Recommended next: '' @ title_or_url (recommend_candidate c0 rest) 60 @
             [CHR 0x0A] @ ''Open: '' @
             or_str (or_field (watchUrl (recommend_candidate c0 rest))
                       (originalUrl (recommend_candidate c0 rest))) ''No link available''))"
proof -
  let ?clips = "c0 # rest"
  let ?numeric = "filter (\<lambda>c. is_number (duration c)) ?clips"
  let ?first = "case find (\<lambda>c. \<not> watched c) ?clips of Some c \<Rightarrow> c | None \<Rightarrow> c0"
  have 1: "?numeric = [] \<longrightarrow> recommend_candidate c0 rest = ?first"
    using recommend_candidate_no_numeric by blast
  have 2: "\<forall>m ms. sort_key duration_value ?numeric = m # ms \<longrightarrow>
          m \<in> set ?clips \<and> is_number (duration m) \<and>
          (\<forall>c\<in>set ?clips. is_number (duration c) \<longrightarrow> duration_value m \<le> duration_value c) \<and>
          recommend_candidate c0 rest = (if watched m then ?first else m)"
  proof (intro allI impI)
    fix m ms assume s: "sort_key duration_value ?numeric = m # ms"
    from least_of_sort_key [OF s]
    have "m \<in> set ?numeric" and le: "\<forall>x\<in>set ?numeric. duration_value m \<le> duration_value x"
      by blast+
    then have "m \<in> set ?clips" and "is_number (duration m)"
      unfolding set_filter by blast+
    moreover have "\<forall>c\<in>set ?clips. is_number (duration c) \<longrightarrow> duration_value m \<le> duration_value c"
      using le unfolding set_filter by blast
    moreover have "recommend_candidate c0 rest = (if watched m then ?first else m)"
      using s by (rule recommend_candidate_numeric)
    ultimately show "m \<in> set ?clips \<and> is_number (duration m) \<and>
          (\<forall>c\<in>set ?clips. is_number (duration c) \<longrightarrow> duration_value m \<le> duration_value c) \<and>
          recommend_candidate c0 rest = (if watched m then ?first else m)"
      by blast
  qed
  have 3: "duration a = NoDuration \<and> duration b = Duration d \<and> \<not> watched b \<longrightarrow>
      recommend_candidate a [b] = b"
    using recommend_candidate_shortest_unwatched by blast
  have 4: "toLowerCase js (trim js text) = ''recommend next'' \<and> truthy uid \<and> truthy pid \<and>
    find_playlist db (the uid) (the pid) = Inr pl \<and>
    playlist_clips db (the uid) (the pid) = Inr (c0 # rest) \<longrightarrow>
      handleMessageRaw js db uid pid text =
        Inr (''Recommended next: '' @ title_or_url (recommend_candidate c0 rest) 60 @
             [CHR 0x0A] @ ''Open: '' @
             or_str (or_field (watchUrl (recommend_candidate c0 rest))
                       (originalUrl (recommend_candidate c0 rest))) ''No link available'')"
    using handleMessageRaw_recommend_next by blast
  show ?thesis unfolding Let_def using 1 2 3 4 by blast
qed

theorem C7_recommend_rule_and_reply_witness:
  "recommend_candidate
     (no_clip\<lparr>customTitle := Some ''A'', duration := NoDuration, watched := False\<rparr>)
     [no_clip\<lparr>customTitle := Some ''B'', duration := Duration 5, watched := False\<rparr>] =
     no_clip\<lparr>customTitle := Some ''B'', duration := Duration 5, watched := False\<rparr> \<and>
   handleMessageRaw ascii_platform
     \<lparr>find_playlist = \<lambda>u p. Inr (Some \<lparr>playlist_id = Some ''p1'', name = Some ''Mix''\<rparr>),
      playlist_clips = \<lambda>u p. Inr
        [no_clip\<lparr>customTitle := Some ''A'', duration := NoDuration, watched := False\<rparr>,
         no_clip\<lparr>customTitle := Some ''B'', duration := Duration 5, watched := False\<rparr>],
      library_clips = \<lambda>u. Inr []\<rparr>
     (Some ''u1'') (Some ''p1'') '' Recommend NEXT '' =
     Inr (''Recommended next: B'' @ [CHR 0x0A] @ ''Open: No link available'')"
proof -
  let ?a = "no_clip\<lparr>customTitle := Some ''A'', duration := NoDuration, watched := False\<rparr>"
  let ?b = "no_clip\<lparr>customTitle := Some ''B'', duration := Duration 5, watched := False\<rparr>"
  let ?db = "\<lparr>find_playlist = \<lambda>u p. Inr (Some \<lparr>playlist_id = Some ''p1'', name = Some ''Mix''\<rparr>),
      playlist_clips = \<lambda>u p. Inr [?a, ?b], library_clips = \<lambda>u. Inr []\<rparr> :: client_store"
  let ?pl = "Some \<lparr>playlist_id = Some ''p1'', name = Some ''Mix''\<rparr>"
  have ex: "duration ?a = NoDuration \<and> duration ?b = Duration 5 \<and> \<not> watched ?b"
    by (simp add: no_clip_def)
  have msg: "toLowerCase ascii_platform (trim ascii_platform '' Recommend NEXT '') = ''recommend next''"
    by code_simp
  have env: "truthy (Some ''u1'') \<and> truthy (Some ''p1'') \<and>
      find_playlist ?db (the (Some ''u1'')) (the (Some ''p1'')) = Inr ?pl \<and>
      playlist_clips ?db (the (Some ''u1'')) (the (Some ''p1'')) = Inr (?a # [?b])"
    by (simp add: truthy_def)
  note inst = C7_recommend_rule_and_reply
    [of ?a "[?b]" ?a ?b 5 ascii_platform "'' Recommend NEXT ''" "Some ''u1''" "Some ''p1''" ?db ?pl]
  from inst ex have cand: "recommend_candidate ?a [?b] = ?b" by blast
  from inst msg env
  have "handleMessageRaw ascii_platform ?db (Some ''u1'') (Some ''p1'') '' Recommend NEXT '' =
        Inr (''Recommended next: '' @ title_or_url (recommend_candidate ?a [?b]) 60 @
             [CHR 0x0A] @ ''Open: '' @
             or_str (or_field (watchUrl (recommend_candidate ?a [?b]))
                       (originalUrl (recommend_candidate ?a [?b]))) ''No link available'')"
    by blast
  then have shown: "handleMessageRaw ascii_platform ?db (Some ''u1'') (Some ''p1'') '' Recommend NEXT '' =
        Inr (''Recommended next: '' @ title_or_url ?b 60 @ [CHR 0x0A] @ ''Open: '' @
             or_str (or_field (watchUrl ?b) (originalUrl ?b)) ''No link available'')"
    by (simp only: cand)
  have "''Recommended next: '' @ title_or_url ?b 60 @ [CHR 0x0A] @ ''Open: '' @
             or_str (or_field (watchUrl ?b) (originalUrl ?b)) ''No link available'' =
        ''Recommended next: B'' @ [CHR 0x0A] @ ''Open: No link available''"
    by (simp add: title_or_url_def truthy_def or_str_def or_field_def no_clip_def)
  with shown
  have "handleMessageRaw ascii_platform ?db (Some ''u1'') (Some ''p1'') '' Recommend NEXT '' =
        Inr (''Recommended next: B'' @ [CHR 0x0A] @ ''Open: No link available'')"
    by (simp only:)
  with cand show ?thesis by blast
qed

section \<open>Properties of the embed information\<close>

text \<open>
  C8. \<open>getEmbedInfo\<close> returns a record for every input string and every behaviour of the
  URL parser. The empty input gives site \<^verbatim>\<open>unknown\<close>, an input that the parser rejects gives
  site \<^verbatim>\<open>invalid\<close>, both with \<open>embedable = False\<close> and no embed URL; and whenever the result
  is embedable its embed URL is present.
\<close>

theorem C8_getEmbedInfo_total:
  "(rawUrl = [] \<longrightarrow>
      getEmbedInfo js parse rawUrl =
        \<lparr>site = ''unknown'', embedUrl = None, embedable = False, info_watchUrl = None\<rparr>) \<and>
   (rawUrl \<noteq> [] \<and> parse (trim js rawUrl) = None \<longrightarrow>
      getEmbedInfo js parse rawUrl =
        \<lparr>site = ''invalid'', embedUrl = None, embedable = False, info_watchUrl = None\<rparr>) \<and>
   (embedable (getEmbedInfo js parse rawUrl) \<longrightarrow> embedUrl (getEmbedInfo js parse rawUrl) \<noteq> None)"
proof (intro conjI impI)
  assume "rawUrl = []"
  then show "getEmbedInfo js parse rawUrl =
        \<lparr>site = ''unknown'', embedUrl = None, embedable = False, info_watchUrl = None\<rparr>"
    by (simp add: getEmbedInfo_def)
next
  assume "rawUrl \<noteq> [] \<and> parse (trim js rawUrl) = None"
  then show "getEmbedInfo js parse rawUrl =
        \<lparr>site = ''invalid'', embedUrl = None, embedable = False, info_watchUrl = None\<rparr>"
    by (simp add: getEmbedInfo_def Let_def)
next
  assume "embedable (getEmbedInfo js parse rawUrl)"
  then show "embedUrl (getEmbedInfo js parse rawUrl) \<noteq> None"
    by (simp add: getEmbedInfo_def Let_def split: if_splits option.splits)
qed

theorem C8_getEmbedInfo_total_witness:
  "getEmbedInfo ascii_platform (\<lambda>s. None) '''' =
      \<lparr>site = ''unknown'', embedUrl = None, embedable = False, info_watchUrl = None\<rparr> \<and>
   getEmbedInfo ascii_platform (\<lambda>s. None) ''not a url'' =
      \<lparr>site = ''invalid'', embedUrl = None, embedable = False, info_watchUrl = None\<rparr> \<and>
   embedable (getEmbedInfo ascii_platform
      (\<lambda>s. Some \<lparr>hostname = ''youtu.be'', search_v = None, pathname = ''/abc''\<rparr>)
      '' https://youtu.be/abc '') \<and>
   embedUrl (getEmbedInfo ascii_platform
      (\<lambda>s. Some \<lparr>hostname = ''youtu.be'', search_v = None, pathname = ''/abc''\<rparr>)
      '' https://youtu.be/abc '') \<noteq> None"
proof -
  let ?p = "\<lambda>s::string. Some \<lparr>hostname = ''youtu.be'', search_v = None, pathname = ''/abc''\<rparr>"
  let ?n = "\<lambda>s::string. None :: url option"
  have e: "embedable (getEmbedInfo ascii_platform ?p '' https://youtu.be/abc '')" by code_simp
  have i: "''not a url'' \<noteq> [] \<and> ?n (trim ascii_platform ''not a url'') = None" by simp
  from C8_getEmbedInfo_total [where rawUrl = "''''" and js = ascii_platform and parse = ?n]
  have 1: "getEmbedInfo ascii_platform ?n '''' =
      \<lparr>site = ''unknown'', embedUrl = None, embedable = False, info_watchUrl = None\<rparr>"
    by blast
  from C8_getEmbedInfo_total [where rawUrl = "''not a url''" and js = ascii_platform and parse = ?n] i
  have 2: "getEmbedInfo ascii_platform ?n ''not a url'' =
      \<lparr>site = ''invalid'', embedUrl = None, embedable = False, info_watchUrl = None\<rparr>"
    by blast
  from C8_getEmbedInfo_total [where rawUrl = "'' https://youtu.be/abc ''" and js = ascii_platform and parse = ?p] e
  have 3: "embedUrl (getEmbedInfo ascii_platform ?p '' https://youtu.be/abc '') \<noteq> None"
    by blast
  from 1 2 e 3 show ?thesis by blast
qed

end
